theory Spec2Isabelle
  imports Complex_Main "HOL-Library.Multiset" "HOL-Library.List_Lexorder" "HOL-Library.Log_Nat"
begin

section \<open>Text values\<close>

text \<open>
  A Python \<open>str\<close> is a sequence of Unicode code points, so text is modelled as a list of
  code points. Hangul has no ASCII rendering; the Korean literals of \<open>logic_v4.py\<close> are
  written by their code points, with the source spelling given in the comment beside each.
\<close>

type_synonym ustr = "int list"

definition U :: "string \<Rightarrow> ustr" where
  "U s = map of_char s"

text \<open>
  \<open>str.lower()\<close>. The model lowers the ASCII capitals and leaves every other code point
  as it is, which is what Python does on ASCII text and on scripts without case (Hangul).
\<close>

definition lower_cp :: "int \<Rightarrow> int" where
  "lower_cp c = (if 65 \<le> c \<and> c \<le> 90 then c + 32 else c)"

definition py_lower :: "ustr \<Rightarrow> ustr" where
  "py_lower s = map lower_cp s"

text \<open>The code points \<open>str.strip()\<close> and the regular expression class \<open>\s\<close> treat as white space.\<close>

definition is_space :: "int \<Rightarrow> bool" where
  "is_space c \<longleftrightarrow>
     (9 \<le> c \<and> c \<le> 13) \<or> (28 \<le> c \<and> c \<le> 32) \<or> c = 0x85 \<or> c = 0xA0 \<or> c = 0x1680 \<or>
     (0x2000 \<le> c \<and> c \<le> 0x200A) \<or> c = 0x2028 \<or> c = 0x2029 \<or> c = 0x202F \<or>
     c = 0x205F \<or> c = 0x3000"

definition py_strip :: "ustr \<Rightarrow> ustr" where
  "py_strip s = rev (dropWhile is_space (rev (dropWhile is_space s)))"

text \<open>\<open>sub in s\<close> on strings: \<open>sub\<close> occurs in \<open>s\<close> as a contiguous run.\<close>

fun starts_with :: "ustr \<Rightarrow> ustr \<Rightarrow> bool" where
  "starts_with [] s = True"
| "starts_with (p # ps) [] = False"
| "starts_with (p # ps) (c # cs) = (p = c \<and> starts_with ps cs)"

fun contains :: "ustr \<Rightarrow> ustr \<Rightarrow> bool" where
  "contains sub [] = (sub = [])"
| "contains sub (c # cs) = (starts_with sub (c # cs) \<or> contains sub cs)"

text \<open>
  \<open>str(x)\<close> of a cell that holds text or nothing: the missing value prints as \<open>None\<close>
  (a float NaN would print as \<open>nan\<close>; neither spelling contains a term the classifier
  looks for).
\<close>

definition py_str :: "ustr option \<Rightarrow> ustr" where
  "py_str v = (case v of None \<Rightarrow> U ''None'' | Some s \<Rightarrow> s)"

section \<open>Size extractor\<close>

text \<open>
  \<open>parse_size_from_title\<close> searches for \<open>(\d+)\s*M(?:I)?\<close>, where \<open>M\<close> is the unit glyph
  U+B9E4 and \<open>I\<close> the optional suffix U+C785, and returns the digits of the leftmost match.
  A match can only start at a digit; the greedy \<open>\d+\<close> takes the whole run of digits from
  there (giving digits back never helps, since the next character would be a digit), then
  white space is skipped and the unit glyph must follow. The optional suffix does not
  change the captured number. Digits are the ASCII digits.
\<close>

definition is_digit :: "int \<Rightarrow> bool" where
  "is_digit c \<longleftrightarrow> 48 \<le> c \<and> c \<le> 57"

definition unit_glyph :: int where
  "unit_glyph = 0xB9E4"

definition int_of_digits :: "ustr \<Rightarrow> int" where
  "int_of_digits ds = foldl (\<lambda>acc c. 10 * acc + (c - 48)) 0 ds"

definition match_here :: "ustr \<Rightarrow> int option" where
  "match_here s =
     (let ds = takeWhile is_digit s;
          rest = dropWhile is_space (dropWhile is_digit s)
      in if ds \<noteq> [] \<and> rest \<noteq> [] \<and> hd rest = unit_glyph then Some (int_of_digits ds) else None)"

fun re_search_size :: "ustr \<Rightarrow> int option" where
  "re_search_size [] = None"
| "re_search_size (c # cs) =
     (case match_here (c # cs) of Some n \<Rightarrow> Some n | None \<Rightarrow> re_search_size cs)"

definition parse_size_from_title :: "ustr option \<Rightarrow> int option" where
  "parse_size_from_title title =
     (case title of
        None \<Rightarrow> None
      | Some t \<Rightarrow> if t = [] then None else re_search_size t)"

section \<open>Match classifier\<close>

text \<open>
  \<open>excluded_reason\<close> is a string column; the empty string (a kept record) is \<open>NoReason\<close>.
\<close>

datatype reason =
    NoReason
  | NOT_MATCHING_PRODUCT
  | BUNDLE_FREE_GIFT
  | MULTIPACK
  | REFILL_SAMPLE
  | OTHER_PRODUCT_COMBO
  | NON_STANDARD_SIZE

text \<open>
  One row of the table the classifier works on. \<open>filter_search_results\<close> reads
  \<open>product_name\<close> and \<open>brand\<close> and assigns the columns \<open>size_count\<close> and
  \<open>excluded_reason\<close> (creating them, or overwriting them when the input already has
  them, as the output of an earlier run does); the remaining columns ride along in the
  record's extension. Rows are identified by their position: the index labels are unique.
\<close>

record item =
  product_name :: "ustr option"
  brand :: "ustr option"
  size_count :: "int option"
  excluded_reason :: reason

text \<open>
  \<open>EXCLUDE_PATTERNS\<close>, in the insertion order of the dictionary. Each pattern is an
  alternation of literal words, given here as the list of its alternatives; \<open>1\+1\<close> is
  the literal \<open>1+1\<close> and \<open>[xX]2\<close> is \<open>x2\<close> in either case.
\<close>

definition EXCLUDE_PATTERNS :: "(reason \<times> ustr list) list" where
  "EXCLUDE_PATTERNS =
    [(BUNDLE_FREE_GIFT,
       [[0xC138, 0xD2B8], [0x32, 0xC885], [0x33, 0xC885], [0xAE30, 0xD68D],
        [0xD328, 0xD0A4, 0xC9D5], [0xD55C, 0xC815], [0xAD6C, 0xC131], U ''bundle'',
        [0xD328, 0xD0A4, 0xC9C0], [0xC99D, 0xC815], [0xC0AC, 0xC740, 0xD488],
        [0xC1FC, 0xD551, 0xBC31], [0xC2A4, 0xD0C0, 0xBC85, 0xC2A4],
        [0xC0C1, 0xD488, 0xAD8C], [0xCFE0, 0xD3F0], [0xAD6C, 0xB9E4, 0xC2DC]]),
     (MULTIPACK,
       [U ''1+1'', [0x32, 0xAC1C], [0x33, 0xAC1C], [0x34, 0xAC1C], U ''x2'',
        [0x32, 0xD329], [0xBB36, 0xC74C], [0xB354, 0xBE14], [0xB4C0, 0xC624],
        [0xD2B8, 0xB9AC, 0xC624]]),
     (REFILL_SAMPLE,
       [[0xB9AC, 0xD544], U ''sample'', [0xC0D8, 0xD50C], [0xD14C, 0xC2A4, 0xD130]])]"

text \<open>
  \<open>re.search(pattern, s, re.IGNORECASE)\<close> for such a pattern: some alternative occurs in
  \<open>s\<close>, letters compared without regard to case.
\<close>

definition re_search :: "ustr list \<Rightarrow> ustr \<Rightarrow> bool" where
  "re_search alts s = list_ex (\<lambda>a. contains (py_lower a) (py_lower s)) alts"

text \<open>The loop over \<open>EXCLUDE_PATTERNS.items()\<close>: the first pattern that matches decides.\<close>

fun first_pattern :: "(reason \<times> ustr list) list \<Rightarrow> ustr \<Rightarrow> reason option" where
  "first_pattern [] s = None"
| "first_pattern ((r, alts) # ps) s = (if re_search alts s then Some r else first_pattern ps s)"

definition check_exclude_patterns :: "ustr option \<Rightarrow> reason" where
  "check_exclude_patterns name =
     (case name of
        None \<Rightarrow> NoReason
      | Some n \<Rightarrow>
          (let name_lower = py_lower n in
           case first_pattern EXCLUDE_PATTERNS name_lower of
             Some r \<Rightarrow> r
           | None \<Rightarrow> if contains (U ''+'') name_lower then OTHER_PRODUCT_COMBO else NoReason))"

text \<open>
  The inclusion gate. The brand terms are U+CE84 U+D504 and \<open>calmf\<close>; the product terms
  are U+CE84 U+D504 together with U+CE74 U+BC0D U+D328 U+B4DC, written with or without a
  space after the second syllable.
\<close>

definition check_include_condition :: "'a item_scheme \<Rightarrow> bool" where
  "check_include_condition row =
     (let pname = py_lower (py_str (product_name row));
          br = py_lower (py_str (brand row))
      in if br \<in> set [[0xCE84, 0xD504], U ''calmf''] then True
         else
           (let has_calmf = contains [0xCE84, 0xD504] pname;
                has_calming_pad = contains [0xCE74, 0xBC0D, 0xD328, 0xB4DC] pname \<or>
                                  contains [0xCE74, 0xBC0D, 0x20, 0xD328, 0xB4DC] pname
            in has_calmf \<and> has_calming_pad))"

text \<open>
  \<open>_apply_size_parsing\<close> assigns \<open>df['product_name'].apply(parse_size_from_title)\<close>. When
  every title yields a size the new column holds the integers themselves; when some title
  yields \<open>None\<close> and another a size, pandas stores the column as 64-bit floats, with NaN
  for the missing sizes, so each size becomes the nearest float: itself up to \<open>2^53\<close>, and
  beyond that the nearest multiple of the spacing that leaves 53 significant bits, a tie
  going to the even neighbour. \<open>size_count\<close> holds the stored value (always a whole
  number), \<open>None\<close> standing for the missing size. Sizes beyond the 64-bit integer range
  (titles with a run of twenty or more digits) are outside what the model describes.
\<close>

definition float64_of_int :: "int \<Rightarrow> int" where
  "float64_of_int n =
     (let a = \<bar>n\<bar>; e = bitlen a - 53
      in if e \<le> 0 then n
         else (let ulp = 2 ^ nat e; q = a div ulp; r = a mod ulp;
                   q' = (if ulp < 2 * r \<or> (2 * r = ulp \<and> odd q) then q + 1 else q)
               in sgn n * q' * ulp))"

definition has_missing_size :: "'a item_scheme list \<Rightarrow> bool" where
  "has_missing_size df = list_ex (\<lambda>r. parse_size_from_title (product_name r) = None) df"

definition stored_size :: "bool \<Rightarrow> int option \<Rightarrow> int option" where
  "stored_size as_float v = (if as_float then map_option float64_of_int v else v)"

definition apply_size_parsing :: "'a item_scheme list \<Rightarrow> 'a item_scheme list" where
  "apply_size_parsing df =
     map (\<lambda>r. r\<lparr>size_count := stored_size (has_missing_size df)
                                       (parse_size_from_title (product_name r))\<rparr>) df"

text \<open>
  \<open>Series.mode()\<close> returns the most frequent values in ascending order;
  \<open>mode_result.iloc[0]\<close> is the first of them.
\<close>

definition series_mode :: "int list \<Rightarrow> int list" where
  "series_mode xs =
     (let top = foldr max (map (count_list xs) xs) 0
      in sort (remdups (filter (\<lambda>x. count_list xs x = top) xs)))"

definition dropna :: "'v option list \<Rightarrow> 'v list" where
  "dropna vs = concat (map (\<lambda>v. case v of None \<Rightarrow> [] | Some x \<Rightarrow> [x]) vs)"

definition set_reason :: "reason \<Rightarrow> 'a item_scheme \<Rightarrow> 'a item_scheme" where
  "set_reason e r = r\<lparr>excluded_reason := e\<rparr>"

text \<open>Step 1: rows failing the inclusion gate become \<open>NOT_MATCHING_PRODUCT\<close>.\<close>

definition mark_not_matching :: "'a item_scheme list \<Rightarrow> 'a item_scheme list" where
  "mark_not_matching df =
     map (\<lambda>r. if \<not> check_include_condition r then set_reason NOT_MATCHING_PRODUCT r else r) df"

text \<open>Step 2: rows still without a reason are checked against the exclusion patterns.\<close>

definition mark_patterns :: "'a item_scheme list \<Rightarrow> 'a item_scheme list" where
  "mark_patterns df =
     map (\<lambda>r. if excluded_reason r = NoReason
              then (let exclude_reason = check_exclude_patterns (product_name r)
                    in if exclude_reason \<noteq> NoReason then set_reason exclude_reason r else r)
              else r) df"

text \<open>
  Step 3: the modal size of the rows kept so far, taken over the stored sizes;
  \<open>int(...)\<close> of a stored float is exact, the stored values being whole numbers.
\<close>

definition compute_mode_size :: "'a item_scheme list \<Rightarrow> int option" where
  "compute_mode_size df =
     (let current_kept = filter (\<lambda>r. excluded_reason r = NoReason) df
      in if current_kept \<noteq> []
         then (let valid_sizes = dropna (map size_count current_kept)
               in if valid_sizes \<noteq> []
                  then (case series_mode valid_sizes of [] \<Rightarrow> None | m # _ \<Rightarrow> Some m)
                  else None)
         else None)"

text \<open>
  Step 4: kept rows whose stored size is missing or, converted by \<open>int(...)\<close>, differs from
  the modal size.
\<close>

definition mark_non_standard :: "int option \<Rightarrow> 'a item_scheme list \<Rightarrow> 'a item_scheme list" where
  "mark_non_standard mode_size df =
     (case mode_size of
        None \<Rightarrow> df
      | Some m \<Rightarrow>
          map (\<lambda>r. if excluded_reason r = NoReason \<and> size_count r \<noteq> Some m
                   then set_reason NON_STANDARD_SIZE r else r) df)"

text \<open>Step 5: \<open>include_variants\<close> clears \<open>NON_STANDARD_SIZE\<close> again.\<close>

definition release_variants :: "bool \<Rightarrow> 'a item_scheme list \<Rightarrow> 'a item_scheme list" where
  "release_variants include_variants df =
     (if include_variants
      then map (\<lambda>r. if excluded_reason r = NON_STANDARD_SIZE then set_reason NoReason r else r) df
      else df)"

definition filter_search_results ::
  "'a item_scheme list \<Rightarrow> ustr \<Rightarrow> bool \<Rightarrow> 'a item_scheme list \<times> 'a item_scheme list \<times> int option"
where
  "filter_search_results df query include_variants =
     (let df1 = map (set_reason NoReason) (apply_size_parsing df);
          df2 = mark_patterns (mark_not_matching df1);
          mode_size = compute_mode_size df2;
          df3 = release_variants include_variants (mark_non_standard mode_size df2);
          df_kept = filter (\<lambda>r. excluded_reason r = NoReason) df3;
          df_excluded = filter (\<lambda>r. excluded_reason r \<noteq> NoReason) df3
      in (df_kept, df_excluded, mode_size))"


section \<open>Outlier detectors\<close>

text \<open>
  The detectors read the \<open>price\<close> column and the columns named in \<open>group_cols\<close>. A row
  holds its price, an integer as \<open>map_columns\<close> leaves it, and for every other column
  either a text or Python's \<open>None\<close>; a table is the list of its column names (with
  \<open>price\<close> among them) and its rows. The statistics are floating-point numbers in
  pandas; they are modelled by exact rationals.
\<close>

record priced =
  price :: int
  attrs :: "ustr \<Rightarrow> ustr option"

record 'r frame =
  columns :: "ustr list"
  rows :: "'r list"

text \<open>
  The values met in group keys: what a row holds in a column (\<open>None\<close>, a text, or the
  price), and the \<open>NaN\<close> under which \<open>groupby(..., dropna=False)\<close> names the group of the
  rows whose key is missing.
\<close>

datatype keyval = KNone | KNaN | KTxt ustr | KInt int

definition cell_of :: "'a priced_scheme \<Rightarrow> ustr \<Rightarrow> keyval" where
  "cell_of row col =
     (if col = U ''price'' then KInt (price row)
      else case attrs row col of None \<Rightarrow> KNone | Some s \<Rightarrow> KTxt s)"

definition get_group_key :: "ustr list \<Rightarrow> 'a priced_scheme \<Rightarrow> keyval list" where
  "get_group_key valid_group_cols row = map (cell_of row) valid_group_cols"

definition group_name :: "keyval list \<Rightarrow> keyval list" where
  "group_name key = map (\<lambda>v. if v = KNone then KNaN else v) key"

text \<open>
  \<open>Series.quantile(q)\<close> with the default linear interpolation: on the sorted values
  \<open>xs\<close> of length \<open>n\<close> the position is \<open>h = (n - 1) * q\<close> and the result lies between
  \<open>xs[floor h]\<close> and its successor, in proportion to the fractional part of \<open>h\<close>; at the
  last position the successor is the last value itself. On an empty series pandas
  returns NaN; the detectors never ask for it, as every group has a row, and the model
  returns 0 there.
\<close>

definition lerp_at :: "rat list \<Rightarrow> rat \<Rightarrow> rat" where
  "lerp_at xs h =
     (let i = nat \<lfloor>h\<rfloor>;
          j = min (i + 1) (length xs - 1);
          g = h - of_int \<lfloor>h\<rfloor>
      in xs ! i + g * (xs ! j - xs ! i))"

definition quantile :: "int list \<Rightarrow> rat \<Rightarrow> rat" where
  "quantile prices q =
     (if prices = [] then 0
      else lerp_at (map of_int (sort prices)) (of_nat (length prices - 1) * q))"

definition series_median :: "int list \<Rightarrow> rat" where
  "series_median prices =
     (let xs = sort prices; n = length xs
      in if n = 0 then 0
         else if odd n then of_int (xs ! (n div 2))
         else (of_int (xs ! (n div 2 - 1)) + of_int (xs ! (n div 2))) / 2)"

subsection \<open>IQR strategy\<close>

record group_stats =
  Q1 :: rat
  Q3 :: rat
  IQR :: rat
  lower :: rat
  upper :: rat
  median :: rat

definition compute_stats :: "int list \<Rightarrow> group_stats" where
  "compute_stats prices =
     (let q1 = quantile prices (1 / 4);
          q3 = quantile prices (3 / 4);
          iqr = q3 - q1
      in \<lparr>Q1 = q1, Q3 = q3, IQR = iqr,
          lower = q1 - 3 / 2 * iqr, upper = q3 + 3 / 2 * iqr,
          median = series_median prices\<rparr>)"

record annotated = priced +
  deviation_pct :: rat
  outlier_flag :: bool

record stats_row =
  group_key :: "keyval list"
  stats :: group_stats
  outlier_count :: nat

text \<open>
  The rows of one group, and \<open>stats_dict\<close>: one entry per group, under the group's name.
  (pandas orders the groups by key; the order plays no role below.)
\<close>

definition group_rows :: "ustr list \<Rightarrow> keyval list \<Rightarrow> 'a priced_scheme list \<Rightarrow> 'a priced_scheme list" where
  "group_rows valid_group_cols name df =
     filter (\<lambda>r. group_name (get_group_key valid_group_cols r) = name) df"

definition stats_dict_of :: "ustr list \<Rightarrow> priced list \<Rightarrow> (keyval list \<times> group_stats) list" where
  "stats_dict_of valid_group_cols df =
     map (\<lambda>name. (name, compute_stats (map price (group_rows valid_group_cols name df))))
         (remdups (map (\<lambda>r. group_name (get_group_key valid_group_cols r)) df))"

text \<open>
  The temporary columns \<open>_lower\<close>, \<open>_upper\<close>, \<open>_median\<close> of one row. Without a valid group
  column they are the statistics of the whole table; otherwise they are looked up in
  \<open>stats_dict\<close> under the row's own key, with the defaults 0, \<open>float('inf')\<close> (here \<open>None\<close>)
  and 0 when the key is not found.
\<close>

definition row_bounds ::
  "ustr list \<Rightarrow> priced list \<Rightarrow> priced \<Rightarrow> rat \<times> rat option \<times> rat" where
  "row_bounds valid_group_cols df row =
     (if valid_group_cols = []
      then (let st = compute_stats (map price df) in (lower st, Some (upper st), median st))
      else (case map_of (stats_dict_of valid_group_cols df) (get_group_key valid_group_cols row) of
              None \<Rightarrow> (0, None, 0)
            | Some st \<Rightarrow> (lower st, Some (upper st), median st)))"

definition above :: "int \<Rightarrow> rat option \<Rightarrow> bool" where
  "above p bound = (case bound of None \<Rightarrow> False | Some u \<Rightarrow> u < of_int p)"

definition annotate :: "bool \<Rightarrow> rat \<Rightarrow> rat \<times> rat option \<times> rat \<Rightarrow> priced \<Rightarrow> annotated" where
  "annotate use_aux aux_pct b row =
     (case b of (lo, hi, med) \<Rightarrow>
        (let dev = (if med \<noteq> 0 then (of_int (price row) - med) / med * 100 else 0);
             flag = (of_int (price row) < lo \<or> above (price row) hi);
             flag' = (if use_aux then flag \<or> aux_pct \<le> \<bar>dev\<bar> else flag)
         in \<lparr>price = price row, attrs = attrs row, deviation_pct = dev, outlier_flag = flag'\<rparr>))"

definition detect_outliers_iqr ::
  "priced frame \<Rightarrow> ustr list \<Rightarrow> bool \<Rightarrow> rat \<Rightarrow>
     annotated list \<times> annotated list \<times> annotated list \<times> stats_row list" where
  "detect_outliers_iqr df group_cols use_aux aux_pct =
     (let positive = filter (\<lambda>r. 0 < price r) (rows df)
      in if rows df = [] \<or> positive = [] then ([], [], [], [])
         else
           (let valid_group_cols = filter (\<lambda>col. col \<in> set (columns df)) group_cols;
                df_before_outlier =
                  map (\<lambda>r. annotate use_aux aux_pct (row_bounds valid_group_cols positive r) r) positive;
                stats_df =
                  (if valid_group_cols = []
                   then [\<lparr>group_key = [], stats = compute_stats (map price positive),
                          outlier_count = length (filter outlier_flag df_before_outlier)\<rparr>]
                   else map (\<lambda>(name, st).
                               \<lparr>group_key = name, stats = st,
                                outlier_count =
                                  length (filter outlier_flag
                                            (group_rows valid_group_cols name df_before_outlier))\<rparr>)
                            (stats_dict_of valid_group_cols positive));
                df_inliers = filter (\<lambda>r. \<not> outlier_flag r) df_before_outlier;
                df_outliers = filter outlier_flag df_before_outlier
            in (df_before_outlier, df_inliers, df_outliers, stats_df)))"

subsection \<open>Quantile-cap strategy\<close>

datatype py_error = ValueError | TypeError

record capped = annotated +
  bound_lower :: rat
  bound_upper :: rat

record cap_stats =
  cap_Q1 :: rat
  upper_q :: rat
  cap_lower :: rat
  cap_upper :: rat
  cap_median :: rat
  cap_method :: rat
  cap_outlier_count :: nat

text \<open>
  \<open>compute_stats\<close> of \<open>detect_outliers_quantile\<close>. \<open>Series.quantile\<close> raises \<open>ValueError\<close>
  for a quantile outside \<open>[0, 1]\<close>. The \<open>method\<close> label \<open>Q<upper_quantile>\<close> is kept as the
  number it prints.
\<close>

definition compute_cap_stats :: "rat \<Rightarrow> int list \<Rightarrow> py_error + cap_stats" where
  "compute_cap_stats upper_quantile prices =
     (if upper_quantile < 0 \<or> 1 < upper_quantile then Inl ValueError
      else
        (let q1 = quantile prices (1 / 4);
             upper_q_val = quantile prices upper_quantile
         in Inr \<lparr>cap_Q1 = q1, upper_q = upper_q_val, cap_lower = q1, cap_upper = upper_q_val,
                 cap_median = series_median prices, cap_method = upper_quantile,
                 cap_outlier_count = 0\<rparr>))"

definition cap_annotate :: "bool \<Rightarrow> rat \<Rightarrow> cap_stats \<Rightarrow> priced \<Rightarrow> capped" where
  "cap_annotate use_aux aux_pct st row =
     (let med = cap_median st;
          dev = (if med \<noteq> 0 then (of_int (price row) - med) / med * 100 else 0);
          flag = (of_int (price row) < cap_lower st \<or> cap_upper st < of_int (price row));
          flag' = (if use_aux then flag \<or> aux_pct \<le> \<bar>dev\<bar> else flag)
      in \<lparr>price = price row, attrs = attrs row, deviation_pct = dev, outlier_flag = flag',
          bound_lower = cap_lower st, bound_upper = cap_upper st\<rparr>)"

definition detect_outliers_quantile ::
  "priced frame \<Rightarrow> ustr list \<Rightarrow> rat \<Rightarrow> bool \<Rightarrow> rat \<Rightarrow>
     py_error + (capped list \<times> capped list \<times> capped list \<times> cap_stats list)" where
  "detect_outliers_quantile df group_cols upper_quantile use_aux aux_pct =
     (let positive = filter (\<lambda>r. 0 < price r) (rows df)
      in if rows df = [] \<or> positive = [] then Inr ([], [], [], [])
         else
           (let valid_group_cols = filter (\<lambda>col. col \<in> set (columns df)) group_cols;
                computed = (if valid_group_cols = []
                            then compute_cap_stats upper_quantile (map price positive)
                            else compute_cap_stats upper_quantile (map price positive))
            in case computed of
                 Inl e \<Rightarrow> Inl e
               | Inr st \<Rightarrow>
                   (let df_before_outlier = map (cap_annotate use_aux aux_pct st) positive;
                        lower_bound = bound_lower (hd df_before_outlier);
                        upper_bound = bound_upper (hd df_before_outlier);
                        stats_df = [st\<lparr>cap_outlier_count :=
                                         length (filter outlier_flag df_before_outlier)\<rparr>];
                        in_range = filter (\<lambda>r. lower_bound \<le> of_int (price r) \<and>
                                                of_int (price r) \<le> upper_bound) df_before_outlier;
                        df_inliers = (if use_aux
                                      then filter (\<lambda>r. \<bar>deviation_pct r\<bar> < aux_pct) in_range
                                      else in_range);
                        df_outliers = filter outlier_flag df_before_outlier
                    in Inr (df_before_outlier, df_inliers, df_outliers, stats_df))))"

text \<open>The prices the detectors analyse: those of the records with a positive price.\<close>

definition population :: "'a priced_scheme frame \<Rightarrow> int list" where
  "population df = map price (filter (\<lambda>r. 0 < price r) (rows df))"

text \<open>The ten prices of \<open>test_v4_outlier.py\<close>, all under one query.\<close>

definition test_prices :: "int list" where
  "test_prices = [8000, 12000, 15000, 18000, 20000, 22000, 25000, 30000, 41600, 68000]"

definition test_data :: "priced frame" where
  "test_data =
     \<lparr>columns = [U ''query'', U ''product_name'', U ''price''],
      rows = map (\<lambda>p. \<lparr>price = p,
                         attrs = (\<lambda>c. if c = U ''query'' then Some (U ''calming pad'')
                                        else if c = U ''product_name'' then Some (U ''Product'')
                                        else None)\<rparr>) test_prices\<rparr>"

text \<open>
  The same ten prices in a table whose \<open>query\<close> column holds \<open>None\<close> in every row, as
  \<open>map_columns\<close> leaves it when the upload has no such column; and a table of four prices
  under two queries.
\<close>

definition null_query_data :: "priced frame" where
  "null_query_data =
     \<lparr>columns = [U ''query'', U ''product_name'', U ''price''],
      rows = map (\<lambda>p. \<lparr>price = p,
                         attrs = (\<lambda>c. if c = U ''product_name'' then Some (U ''Product'')
                                        else None)\<rparr>) test_prices\<rparr>"

definition two_queries :: "priced frame" where
  "two_queries =
     \<lparr>columns = [U ''query'', U ''price''],
      rows = [\<lparr>price = 100, attrs = (\<lambda>c. if c = U ''query'' then Some (U ''a'') else None)\<rparr>,
              \<lparr>price = 200, attrs = (\<lambda>c. if c = U ''query'' then Some (U ''a'') else None)\<rparr>,
              \<lparr>price = 1000, attrs = (\<lambda>c. if c = U ''query'' then Some (U ''b'') else None)\<rparr>,
              \<lparr>price = 3000, attrs = (\<lambda>c. if c = U ''query'' then Some (U ''b'') else None)\<rparr>]\<rparr>"

section \<open>Seller outlier summarizer\<close>

text \<open>
  \<open>build_seller_outlier_summary\<close> reads the columns \<open>seller\<close> and \<open>mall_name\<close> (each a text
  or \<open>None\<close>), \<open>outlier_flag\<close> and \<open>deviation_pct\<close> of an annotated table. The result is a
  table of one row per seller.
\<close>

record summary_row =
  seller :: ustr
  total_count :: nat
  outlier_count :: nat
  outlier_rate :: rat
  mean_deviation_pct :: rat

text \<open>\<open>Series.notna()\<close> and \<open>Series.astype(str).str.strip() != ''\<close>, for one value.\<close>

definition notna :: "ustr option \<Rightarrow> bool" where
  "notna v \<longleftrightarrow> v \<noteq> None"

definition nonblank_str :: "ustr option \<Rightarrow> bool" where
  "nonblank_str v \<longleftrightarrow> py_strip (py_str v) \<noteq> []"

subsection \<open>Floating-point arithmetic of the rates\<close>

text \<open>
  The rate and the two roundings are computed on 64-bit floats. A float is modelled by the
  rational number it denotes, and each arithmetic operation returns the float nearest to
  the exact result: \<open>float64\<close> rounds a rational to 53 significant bits, a tie going to the
  neighbour with the even significand. \<open>binade x\<close> is the exponent of the power of two at or
  below \<open>\<bar>x\<bar>\<close>. The model covers the normal range of the format (no overflow, no
  subnormal numbers), which holds every count ratio and percentage.
\<close>

definition pow2 :: "int \<Rightarrow> rat" where
  "pow2 e = (if 0 \<le> e then 2 ^ nat e else 1 / 2 ^ nat (- e))"

definition round_half_even :: "rat \<Rightarrow> int" where
  "round_half_even x =
     (let f = \<lfloor>x\<rfloor>; d = x - of_int f
      in if d < 1 / 2 then f else if 1 / 2 < d then f + 1 else if even f then f else f + 1)"

definition binade :: "rat \<Rightarrow> int" where
  "binade x =
     (case quotient_of \<bar>x\<bar> of (p, q) \<Rightarrow>
        (let d = bitlen p - bitlen q in if pow2 d \<le> \<bar>x\<bar> then d else d - 1))"

definition float64 :: "rat \<Rightarrow> rat" where
  "float64 x =
     (if x = 0 then 0
      else (let ulp = pow2 (binade x - 52) in of_int (round_half_even (x / ulp)) * ulp))"

text \<open>
  \<open>Series.round(2)\<close> is numpy's \<open>round\<close>: multiply by \<open>10 ** 2\<close>, round to the nearest whole
  number (\<open>rint\<close>, ties to even), divide by \<open>10 ** 2\<close>.
\<close>

definition np_round2 :: "rat \<Rightarrow> rat" where
  "np_round2 x = float64 (of_int (round_half_even (float64 (x * 100))) / 100)"

text \<open>\<open>(outlier_count / total_count * 100).round(2)\<close> for one row; the counts are integers.\<close>

definition outlier_rate_of :: "nat \<Rightarrow> nat \<Rightarrow> rat" where
  "outlier_rate_of n_outliers n_total =
     np_round2 (float64 (float64 (of_nat n_outliers / of_nat n_total) * 100))"

subsection \<open>The summary\<close>

definition empty_summary :: "summary_row frame" where
  "empty_summary =
     \<lparr>columns = [U ''seller'', U ''total_count'', U ''outlier_count'', U ''outlier_rate'',
                  U ''mean_deviation_pct''],
      rows = []\<rparr>"

text \<open>
  The aggregate of one group: the rows of \<open>df\<close> whose \<open>group_col\<close> is the key. The mean of
  the group's \<open>deviation_pct\<close> values is computed inside pandas' grouped aggregation; it is
  the parameter \<open>mean\<close> of the model.
\<close>

definition aggregate :: "(rat list \<Rightarrow> rat) \<Rightarrow> ustr \<Rightarrow> annotated list \<Rightarrow> ustr \<Rightarrow> summary_row" where
  "aggregate mean group_col df key =
     (let g = filter (\<lambda>r. attrs r group_col = Some key) df;
          total = length g;
          outliers = length (filter outlier_flag g)
      in \<lparr>seller = key, total_count = total, outlier_count = outliers,
          outlier_rate = outlier_rate_of outliers total,
          mean_deviation_pct = np_round2 (mean (map deviation_pct g))\<rparr>)"

text \<open>
  The part of the function after the group column is chosen: drop the rows with a missing
  or blank key, aggregate per key (\<open>groupby\<close> orders the keys), and sort by
  \<open>outlier_rate\<close>, highest first. \<open>sort_values(ascending=False)\<close> reverses, sorts
  ascending and reverses again; the order among equal rates is the one a stable sort
  gives, which pandas' default quicksort does not promise.
\<close>

definition summarise :: "(rat list \<Rightarrow> rat) \<Rightarrow> ustr \<Rightarrow> annotated list \<Rightarrow> summary_row frame" where
  "summarise mean group_col df_rows =
     (let df = filter (\<lambda>r. notna (attrs r group_col) \<and> nonblank_str (attrs r group_col)) df_rows
      in if df = [] then empty_summary
         else
           (let keys = sort (remdups (dropna (map (\<lambda>r. attrs r group_col) df)));
                summary = map (aggregate mean group_col df) keys
            in \<lparr>columns = [U ''seller'', U ''total_count'', U ''outlier_count'',
                            U ''mean_deviation_pct'', U ''outlier_rate''],
                rows = rev (sort_key outlier_rate (rev summary))\<rparr>))"

text \<open>
  The choice of the group column: \<open>seller\<close> when the table has the column, some value of it
  is not missing, and some value of it, printed by \<open>astype(str)\<close>, is not blank (a missing
  value prints as \<open>None\<close>, which is not blank); otherwise \<open>mall_name\<close> when the table has
  that column; otherwise the empty table.
\<close>

definition build_seller_outlier_summary ::
  "(rat list \<Rightarrow> rat) \<Rightarrow> annotated frame \<Rightarrow> summary_row frame" where
  "build_seller_outlier_summary mean df_before_outlier =
     (let df = rows df_before_outlier;
          sellers = map (\<lambda>r. attrs r (U ''seller'')) df
      in if U ''seller'' \<in> set (columns df_before_outlier) \<and> list_ex notna sellers \<and>
            list_ex nonblank_str sellers
         then summarise mean (U ''seller'') df
         else if U ''mall_name'' \<in> set (columns df_before_outlier)
         then summarise mean (U ''mall_name'') df
         else empty_summary)"

text \<open>
  A column is usable as the group key when the table has it and some row holds a
  non-blank text in it.
\<close>

definition usable :: "ustr \<Rightarrow> annotated frame \<Rightarrow> bool" where
  "usable col df \<longleftrightarrow>
     col \<in> set (columns df) \<and>
     list_ex (\<lambda>r. case attrs r col of None \<Rightarrow> False | Some s \<Rightarrow> py_strip s \<noteq> []) (rows df)"

text \<open>
  Sample tables of two records sold by the mall \<open>shopA\<close>. In the first the \<open>seller\<close> is
  missing in one record and blank in the other; in the second it is missing in both.
\<close>

definition listing :: "ustr option \<Rightarrow> ustr option \<Rightarrow> bool \<Rightarrow> rat \<Rightarrow> annotated" where
  "listing s m flag dev =
     \<lparr>price = 1000,
      attrs = (\<lambda>c. if c = U ''seller'' then s else if c = U ''mall_name'' then m else None),
      deviation_pct = dev, outlier_flag = flag\<rparr>"

definition blank_seller_shops :: "annotated frame" where
  "blank_seller_shops =
     \<lparr>columns = [U ''seller'', U ''mall_name'', U ''price'', U ''outlier_flag'', U ''deviation_pct''],
      rows = [listing None (Some (U ''shopA'')) True 60,
              listing (Some (U '' '')) (Some (U ''shopA'')) False 0]\<rparr>"

definition absent_seller_shops :: "annotated frame" where
  "absent_seller_shops =
     \<lparr>columns = [U ''seller'', U ''mall_name'', U ''price'', U ''outlier_flag'', U ''deviation_pct''],
      rows = [listing None (Some (U ''shopA'')) True 60,
              listing None (Some (U ''shopA'')) False 0]\<rparr>"

section \<open>Column normalizer\<close>

text \<open>
  A table as \<open>map_columns\<close> sees it: the columns in order, each with its name and its
  values, one per row. Two columns may carry the same name (pandas allows it, and the
  renaming below can produce it). A value is missing, a text or a number.
\<close>

datatype cell = Null | Text ustr | Number rat

type_synonym table = "(ustr \<times> cell list) list"

definition names :: "table \<Rightarrow> ustr list" where
  "names df = map fst df"

definition nrows :: "table \<Rightarrow> nat" where
  "nrows df = (case df of [] \<Rightarrow> 0 | (_, vs) # _ \<Rightarrow> length vs)"

text \<open>
  \<open>column_mapping\<close>, in the order of the dictionary literal. The Korean keys, by code
  points: U+C0C1 U+D488 U+BA85 and U+C81C U+D488 U+BA85 (product name), U+C774 U+BBF8 U+C9C0
  (image), U+AC00 U+ACA9 and U+D310 U+B9E4 U+AC00 (price), U+C1FC U+D551 U+BAB0 U+BA85 and
  U+D310 U+B9E4 U+CC98 (mall), U+D310 U+B9E4 U+C790 (seller), U+AC80 U+C0C9 U+C5B4 (query),
  U+C21C U+C704 (rank).
\<close>

definition column_mapping :: "(ustr \<times> ustr) list" where
  "column_mapping =
    [(U ''title'', U ''product_name''),
     (U ''product_title'', U ''product_name''),
     ([0xC0C1, 0xD488, 0xBA85], U ''product_name''),
     ([0xC81C, 0xD488, 0xBA85], U ''product_name''),
     (U ''image'', U ''image_url''),
     (U ''img_url'', U ''image_url''),
     (U ''thumbnail'', U ''image_url''),
     ([0xC774, 0xBBF8, 0xC9C0], U ''image_url''),
     (U ''lprice'', U ''price''),
     (U ''hprice'', U ''price''),
     ([0xAC00, 0xACA9], U ''price''),
     ([0xD310, 0xB9E4, 0xAC00], U ''price''),
     ([0xC1FC, 0xD551, 0xBAB0, 0xBA85], U ''mall_name''),
     ([0xD310, 0xB9E4, 0xCC98], U ''mall_name''),
     (U ''shop_name'', U ''mall_name''),
     (U ''store_name'', U ''mall_name''),
     ([0xD310, 0xB9E4, 0xC790], U ''seller''),
     (U ''seller_name'', U ''seller''),
     ([0xAC80, 0xC0C9, 0xC5B4], U ''query''),
     (U ''keyword'', U ''query''),
     (U ''rank'', U ''page_rank''),
     ([0xC21C, 0xC704], U ''page_rank'')]"

definition standard_columns :: "ustr list" where
  "standard_columns =
    [U ''query'', U ''product_id'', U ''page_rank'', U ''product_name'', U ''brand'', U ''maker'',
     U ''price'', U ''category1'', U ''category2'', U ''category3'', U ''link'', U ''image_url'',
     U ''seller'', U ''mall_name'']"

text \<open>\<open>df.rename(columns={old: new})\<close>: every column named \<open>old\<close> is now named \<open>new\<close>.\<close>

definition rename :: "ustr \<Rightarrow> ustr \<Rightarrow> table \<Rightarrow> table" where
  "rename old new df = map (\<lambda>(n, vs). (if n = old then new else n, vs)) df"

text \<open>
  \<open>existing_cols_lower\<close>: from the trimmed lower-case name to the column; of two columns
  with the same such name the later one stays in the dictionary.
\<close>

definition existing_cols_lower :: "table \<Rightarrow> ustr \<rightharpoonup> ustr" where
  "existing_cols_lower df = map_of (rev (map (\<lambda>col. (py_strip (py_lower col), col)) (names df)))"

text \<open>The first loop: a synonym is renamed to its target unless the target is already there.\<close>

definition apply_mapping :: "(ustr \<rightharpoonup> ustr) \<Rightarrow> table \<Rightarrow> table" where
  "apply_mapping existing df =
     foldl (\<lambda>df (source, target).
              case existing (py_lower source) of
                None \<Rightarrow> df
              | Some original_col \<Rightarrow>
                  if target \<notin> set (names df) then rename original_col target df else df)
           df column_mapping"

text \<open>
  The second loop runs over the column names as they are when it starts: a name that is a
  standard name up to case and surrounding white space, but not spelled exactly so, is
  renamed to it.
\<close>

definition normalise_case :: "table \<Rightarrow> table" where
  "normalise_case df =
     foldl (\<lambda>df col.
              case find (\<lambda>std_col. py_strip (py_lower col) = py_lower std_col \<and> col \<noteq> std_col)
                        standard_columns of
                None \<Rightarrow> df
              | Some std_col \<Rightarrow> rename col std_col df)
           df (names df)"

text \<open>The third loop: \<open>df[col] = None\<close> for every standard column still missing.\<close>

definition add_missing :: "table \<Rightarrow> table" where
  "add_missing df =
     foldl (\<lambda>df col. if col \<notin> set (names df) then df @ [(col, replicate (nrows df) Null)] else df)
           df standard_columns"

text \<open>
  \<open>pd.to_numeric(..., errors='coerce')\<close> on one value. A missing value is not a number, a
  number is itself, and how a text is read is pandas' business and a parameter here:
  \<open>to_num s\<close> says that the text is not numeric, which finite number it denotes, or that
  it denotes an infinity.
\<close>

datatype parsed = NotNumeric | Value rat | Infinity

definition to_numeric :: "(ustr \<Rightarrow> parsed) \<Rightarrow> cell \<Rightarrow> parsed" where
  "to_numeric to_num c = (case c of Null \<Rightarrow> NotNumeric | Number r \<Rightarrow> Value r | Text s \<Rightarrow> to_num s)"

text \<open>
  \<open>astype(int)\<close> cuts the fraction off, toward zero. That is exact up to the magnitude
  \<open>2^53\<close>; what a larger number becomes depends on how the column was stored (integers or
  floats) and, beyond 64 bits, on the platform, and is the parameter \<open>beyond\<close>.
\<close>

definition trunc :: "rat \<Rightarrow> int" where
  "trunc r = (if 0 \<le> r then \<lfloor>r\<rfloor> else \<lceil>r\<rceil>)"

definition astype_int :: "(rat \<Rightarrow> int) \<Rightarrow> rat \<Rightarrow> int" where
  "astype_int beyond r = (if \<bar>r\<bar> \<le> 2 ^ 53 then trunc r else beyond r)"

text \<open>
  \<open>.fillna(0).astype(int)\<close> after \<open>to_numeric\<close>, on one value of a column without
  infinities: what is not numeric becomes 0.
\<close>

definition coerce_price :: "(ustr \<Rightarrow> parsed) \<Rightarrow> (rat \<Rightarrow> int) \<Rightarrow> cell \<Rightarrow> cell" where
  "coerce_price to_num beyond c =
     Number (of_int (case to_numeric to_num c of
                       NotNumeric \<Rightarrow> 0
                     | Value r \<Rightarrow> astype_int beyond r
                     | Infinity \<Rightarrow> 0))"

text \<open>
  \<open>map_columns\<close>. With two columns named \<open>price\<close>, \<open>df['price']\<close> is a table and
  \<open>pd.to_numeric\<close> raises \<open>TypeError\<close>. With an infinity in the column, \<open>astype(int)\<close>
  raises a \<open>ValueError\<close> (it refuses non-finite values).
\<close>

definition map_columns ::
  "(ustr \<Rightarrow> parsed) \<Rightarrow> (rat \<Rightarrow> int) \<Rightarrow> table \<Rightarrow> py_error + table" where
  "map_columns to_num beyond df0 =
     (let existing = existing_cols_lower df0;
          df1 = apply_mapping existing df0;
          df2 = normalise_case df1;
          df3 = add_missing df2
      in if U ''price'' \<in> set (names df3)
         then (if 1 < length (filter (\<lambda>n. n = U ''price'') (names df3)) then Inl TypeError
               else if list_ex (\<lambda>(n, vs). n = U ''price'' \<and>
                                          list_ex (\<lambda>c. to_numeric to_num c = Infinity) vs) df3
               then Inl ValueError
               else Inr (map (\<lambda>(n, vs). if n = U ''price''
                                         then (n, map (coerce_price to_num beyond) vs)
                                         else (n, vs)) df3))
         else Inr df3)"

text \<open>
  Stand-ins for the two parameters in the examples: a reading of plain digit strings and
  of \<open>inf\<close>, and a conversion that gives the least 64-bit integer beyond the exact range.
  Then four small uploads.
\<close>

definition plain_number :: "ustr \<Rightarrow> parsed" where
  "plain_number s =
     (if s = U ''inf'' then Infinity
      else if s \<noteq> [] \<and> list_all is_digit s then Value (of_int (int_of_digits s))
      else NotNumeric)"

definition indefinite :: "rat \<Rightarrow> int" where
  "indefinite r = - (2 ^ 63)"


definition upload_with_prices :: table where
  "upload_with_prices =
     [(U ''title'', [Text (U ''a''), Text (U ''b''), Text (U ''c''), Text (U ''d''), Text (U ''e'')]),
      (U ''lprice'', [Number (- 5), Text (U ''abc''), Text [], Null, Text (U ''1200'')])]"

definition upload_two_prices :: table where
  "upload_two_prices = [(U ''price'', [Number 100]), (U ''Price'', [Number 200])]"

definition upload_infinite_price :: table where
  "upload_infinite_price = [(U ''price'', [Text (U ''inf'')])]"


definition normalised_prices :: table where
  "normalised_prices =
     [(U ''product_name'', [Text (U ''a''), Text (U ''b''), Text (U ''c''), Text (U ''d''), Text (U ''e'')]),
      (U ''price'', [Number (- 5), Number 0, Number 0, Number 0, Number 1200])] @
     map (\<lambda>c. (c, replicate 5 Null))
         (filter (\<lambda>c. c \<noteq> U ''product_name'' \<and> c \<noteq> U ''price'') standard_columns)"



text \<open>
  The synonyms found in an upload, the standard names found in it up to case, and the
  relation between an upload and a table that keeps its columns: the same columns in the
  same order with the same values, each under its old name or under a standard name.
\<close>

definition mapped_targets :: "table \<Rightarrow> ustr set" where
  "mapped_targets df0 =
     {t. \<exists>s original_col. (s, t) \<in> set column_mapping \<and>
          existing_cols_lower df0 (py_lower s) = Some original_col}"

definition cased_targets :: "table \<Rightarrow> ustr set" where
  "cased_targets df1 =
     {std_col. std_col \<in> set standard_columns \<and>
        (\<exists>col \<in> set (names df1). py_strip (py_lower col) = py_lower std_col)}"

definition keeps :: "table \<Rightarrow> table \<Rightarrow> bool" where
  "keeps df0 df \<longleftrightarrow>
     list_all2 (\<lambda>a b. snd b = snd a \<and> (fst b = fst a \<or> fst b \<in> set standard_columns)) df0 df"

definition coerced :: "(ustr \<Rightarrow> parsed) \<Rightarrow> (rat \<Rightarrow> int) \<Rightarrow> table \<Rightarrow> table" where
  "coerced to_num beyond df =
     map (\<lambda>(n, vs). if n = U ''price'' then (n, map (coerce_price to_num beyond) vs) else (n, vs)) df"

subsection \<open>Auxiliary notions for the proofs\<close>

text \<open>
  The outcome of steps 1 and 2 for one row, the row after steps 1 and 2 (in a table whose
  size column is stored as floats or not), the effect of steps 4 and 5 on one row, and the
  test of one vocabulary of \<open>EXCLUDE_PATTERNS\<close> against a product name.
\<close>

definition base_reason :: "'a item_scheme \<Rightarrow> reason" where
  "base_reason r =
     (if \<not> check_include_condition r then NOT_MATCHING_PRODUCT
      else check_exclude_patterns (product_name r))"

definition provisional :: "bool \<Rightarrow> 'a item_scheme \<Rightarrow> 'a item_scheme" where
  "provisional as_float r =
     r\<lparr>size_count := stored_size as_float (parse_size_from_title (product_name r)),
       excluded_reason := base_reason r\<rparr>"

definition settle :: "int option \<Rightarrow> bool \<Rightarrow> 'a item_scheme \<Rightarrow> 'a item_scheme" where
  "settle mode_size include_variants r =
     (if excluded_reason r = NoReason \<and> \<not> include_variants \<and> mode_size \<noteq> None \<and> size_count r \<noteq> mode_size
      then r\<lparr>excluded_reason := NON_STANDARD_SIZE\<rparr> else r)"

definition matches :: "reason \<Rightarrow> ustr \<Rightarrow> bool" where
  "matches e n = (case map_of EXCLUDE_PATTERNS e of None \<Rightarrow> False | Some alts \<Rightarrow> re_search alts (py_lower n))"

definition kept_sizes :: "'a item_scheme list \<Rightarrow> int list" where
  "kept_sizes df = dropna (map size_count (filter (\<lambda>r. excluded_reason r = NoReason) df))"


subsection \<open>Sample tables\<close>

text \<open>
  A gate-passing row whose name has a bundle word and a \<open>+\<close>, and a small table with two
  70-sheet products and one 100-sheet product (names: the anchor term U+CE84 U+D504, the
  product term U+CE74 U+BC0D U+D328 U+B4DC, the count and the unit glyph U+B9E4).
\<close>

definition bundle_row :: item where
  "bundle_row = \<lparr>product_name = Some (U ''Pad Bundle + Gift''), brand = Some (U ''Calmf''),
                  size_count = None, excluded_reason = NoReason\<rparr>"

definition pad_row :: "string \<Rightarrow> item" where
  "pad_row digits =
     \<lparr>product_name =
        Some ([0xCE84, 0xD504, 0x20, 0xCE74, 0xBC0D, 0xD328, 0xB4DC, 0x20] @ U digits @ [0xB9E4]),
      brand = None, size_count = None, excluded_reason = NoReason\<rparr>"

definition pad_table :: "item list" where
  "pad_table = [pad_row ''70'', pad_row ''100'', pad_row ''70'']"

text \<open>
  A table is within the exact range when every size parsed from its product names is at
  most \<open>2^53\<close>. The second sample table is not: it has two products of \<open>2^53\<close> sheets, one
  of \<open>2^53 + 1\<close> sheets and one whose name states no size.
\<close>

definition exact_sizes :: "'a item_scheme list \<Rightarrow> bool" where
  "exact_sizes df =
     list_all (\<lambda>r. case parse_size_from_title (product_name r) of
                       None \<Rightarrow> True
                     | Some n \<Rightarrow> n \<le> 2 ^ 53) df"

definition sizeless_row :: item where
  "sizeless_row =
     \<lparr>product_name = Some [0xCE84, 0xD504, 0x20, 0xCE74, 0xBC0D, 0xD328, 0xB4DC],
      brand = None, size_count = None, excluded_reason = NoReason\<rparr>"

definition huge_table :: "item list" where
  "huge_table = [pad_row ''9007199254740992'', pad_row ''9007199254740992'',
                 pad_row ''9007199254740993'', sizeless_row]"


text \<open>A group with two cheap records and six records at one price.\<close>

definition skewed_prices :: "int list" where
  "skewed_prices = [1000, 1000, 20000, 20000, 20000, 20000, 20000, 20000]"

text \<open>
  What the summary of a table \<open>df\<close> by the column \<open>col\<close> has to satisfy: every row has a
  non-blank key and is the aggregate of the records of \<open>df\<close> with that key, with a positive
  count and the rate computed from the two counts; no key occurs twice; and the rates
  descend.
\<close>

definition well_formed_summary ::
  "(rat list \<Rightarrow> rat) \<Rightarrow> ustr \<Rightarrow> annotated list \<Rightarrow> summary_row frame \<Rightarrow> bool" where
  "well_formed_summary mean col df out \<longleftrightarrow>
     (\<forall>row \<in> set (rows out).
        py_strip (seller row) \<noteq> [] \<and>
        row = aggregate mean col df (seller row) \<and>
        0 < total_count row \<and> outlier_count row \<le> total_count row \<and>
        outlier_rate row = outlier_rate_of (outlier_count row) (total_count row)) \<and>
     distinct (map seller (rows out)) \<and>
     sorted (rev (map outlier_rate (rows out)))"

section \<open>Properties of the match classifier\<close>

text \<open>
  Claim C10. The classification does not depend on the \<open>query\<close> argument: for every table
  and every two query strings, \<open>filter_search_results\<close> returns the same kept table, the
  same excluded table and the same modal size.
\<close>

theorem filter_search_results_ignores_query:
  "filter_search_results df q1 include_variants = filter_search_results df q2 include_variants"
  by (simp add: filter_search_results_def)

lemma check_include_condition_upd [simp]:
  "check_include_condition (r\<lparr>size_count := s\<rparr>) = check_include_condition r"
  "check_include_condition (r\<lparr>excluded_reason := e\<rparr>) = check_include_condition r"
  by (simp_all add: check_include_condition_def)

lemma stages_1_2: 
  "mark_patterns (mark_not_matching (map (set_reason NoReason) (apply_size_parsing df))) =
   map (provisional (has_missing_size df)) df"
  by (simp add: mark_patterns_def mark_not_matching_def apply_size_parsing_def set_reason_def
      provisional_def base_reason_def Let_def)

lemma stages_4_5:
  "\<forall>r\<in>set df. excluded_reason r \<noteq> NON_STANDARD_SIZE \<Longrightarrow>
   release_variants iv (mark_non_standard m df) = map (settle m iv) df"
  by (induction df; cases m; cases iv)
     (auto simp add: release_variants_def mark_non_standard_def settle_def set_reason_def)

lemma provisional_not_non_standard: "excluded_reason (provisional f r) \<noteq> NON_STANDARD_SIZE"
  by (auto simp: provisional_def base_reason_def check_exclude_patterns_def EXCLUDE_PATTERNS_def Let_def
      split: option.splits if_splits)

lemma filter_search_results_rows:
  "filter_search_results df q iv =
     (let df2 = map (provisional (has_missing_size df)) df; m = compute_mode_size df2;
          df3 = map (settle m iv) df2
      in (filter (\<lambda>r. excluded_reason r = NoReason) df3,
          filter (\<lambda>r. excluded_reason r \<noteq> NoReason) df3, m))"
proof -
  have "release_variants iv (mark_non_standard m (map (provisional f) df)) =
        map (settle m iv) (map (provisional f) df)" for m f
    by (rule stages_4_5) (simp add: provisional_not_non_standard)
  then show ?thesis
    by (simp only: filter_search_results_def Let_def stages_1_2)
qed

lemma settle_fields [simp]:
  "product_name (settle m iv r) = product_name r"
  "brand (settle m iv r) = brand r"
  "size_count (settle m iv r) = size_count r"
  by (simp_all add: settle_def)

lemma provisional_fields [simp]:
  "product_name (provisional f r) = product_name r"
  "brand (provisional f r) = brand r"
  "size_count (provisional f r) = stored_size f (parse_size_from_title (product_name r))"
  "excluded_reason (provisional f r) = base_reason r"
  by (simp_all add: provisional_def)

lemma check_include_condition_cong:
  "product_name r = product_name r' \<Longrightarrow> brand r = brand r' \<Longrightarrow>
   check_include_condition r = check_include_condition r'"
  by (simp add: check_include_condition_def)

lemma check_exclude_patterns_cases:
  "check_exclude_patterns (Some n) =
     (if matches BUNDLE_FREE_GIFT n then BUNDLE_FREE_GIFT
      else if matches MULTIPACK n then MULTIPACK
      else if matches REFILL_SAMPLE n then REFILL_SAMPLE
      else if contains (U ''+'') (py_lower n) then OTHER_PRODUCT_COMBO
      else NoReason)"
  by (simp add: check_exclude_patterns_def matches_def EXCLUDE_PATTERNS_def Let_def)

text \<open>
  Claim C4. Take any row of the classifier's output that passes the inclusion gate and
  has a product name. Its \<open>excluded_reason\<close> is the first applicable exclusion rule in the
  order \<open>BUNDLE_FREE_GIFT\<close>, \<open>MULTIPACK\<close>, \<open>REFILL_SAMPLE\<close>, \<open>OTHER_PRODUCT_COMBO\<close>: a name
  that matches the bundle vocabulary is tagged \<open>BUNDLE_FREE_GIFT\<close> whether or not it
  contains \<open>+\<close>; \<open>OTHER_PRODUCT_COMBO\<close> is assigned exactly when \<open>+\<close> occurs and none of
  the three vocabularies matches; and a name to which no rule applies carries no pattern
  reason (it is kept, or excluded later for its size).
\<close>

theorem exclusion_reason_first_applicable:
  assumes run: "filter_search_results df query include_variants = (df_kept, df_excluded, mode_size)"
    and row: "r \<in> set df_kept \<union> set df_excluded"
    and gate: "check_include_condition r"
    and name: "product_name r = Some n"
  shows "(matches BUNDLE_FREE_GIFT n \<longrightarrow> excluded_reason r = BUNDLE_FREE_GIFT) \<and>
         (\<not> matches BUNDLE_FREE_GIFT n \<and> matches MULTIPACK n \<longrightarrow> excluded_reason r = MULTIPACK) \<and>
         (\<not> matches BUNDLE_FREE_GIFT n \<and> \<not> matches MULTIPACK n \<and> matches REFILL_SAMPLE n
            \<longrightarrow> excluded_reason r = REFILL_SAMPLE) \<and>
         (\<not> matches BUNDLE_FREE_GIFT n \<and> \<not> matches MULTIPACK n \<and> \<not> matches REFILL_SAMPLE n \<and>
          contains (U ''+'') (py_lower n) \<longrightarrow> excluded_reason r = OTHER_PRODUCT_COMBO) \<and>
         (excluded_reason r = OTHER_PRODUCT_COMBO \<longrightarrow>
            contains (U ''+'') (py_lower n) \<and> \<not> matches BUNDLE_FREE_GIFT n \<and>
            \<not> matches MULTIPACK n \<and> \<not> matches REFILL_SAMPLE n) \<and>
         (\<not> matches BUNDLE_FREE_GIFT n \<and> \<not> matches MULTIPACK n \<and> \<not> matches REFILL_SAMPLE n \<and>
          \<not> contains (U ''+'') (py_lower n) \<longrightarrow> excluded_reason r \<in> {NoReason, NON_STANDARD_SIZE})"
proof -
  from run row obtain r0 m f where r: "r = settle m include_variants (provisional f r0)"
    by (auto simp: filter_search_results_rows Let_def)
  have g0: "check_include_condition r0"
    using gate check_include_condition_cong [of r r0] by (simp add: r)
  have n0: "product_name r0 = Some n"
    using name by (simp add: r)
  have b: "base_reason r0 = check_exclude_patterns (Some n)"
    by (simp add: base_reason_def g0 n0)
  show ?thesis
    unfolding r by (simp add: settle_def b check_exclude_patterns_cases)
qed

theorem exclusion_reason_first_applicable_witness:
  "filter_search_results [bundle_row] (U ''pad'') False =
     ([], [bundle_row\<lparr>excluded_reason := BUNDLE_FREE_GIFT\<rparr>], None) \<and>
   check_include_condition (bundle_row\<lparr>excluded_reason := BUNDLE_FREE_GIFT\<rparr>) \<and>
   matches BUNDLE_FREE_GIFT (U ''Pad Bundle + Gift'') \<and>
   contains (U ''+'') (py_lower (U ''Pad Bundle + Gift'')) \<and>
   excluded_reason (bundle_row\<lparr>excluded_reason := BUNDLE_FREE_GIFT\<rparr>) = BUNDLE_FREE_GIFT"
proof -
  let ?r = "bundle_row\<lparr>excluded_reason := BUNDLE_FREE_GIFT\<rparr>"
  have run: "filter_search_results [bundle_row] (U ''pad'') False = ([], [?r], None)"
    by code_simp
  have row: "?r \<in> set [] \<union> set [?r]" by simp
  have gate: "check_include_condition ?r" by code_simp
  have name: "product_name ?r = Some (U ''Pad Bundle + Gift'')"
    by (simp add: bundle_row_def)
  have m: "matches BUNDLE_FREE_GIFT (U ''Pad Bundle + Gift'')" by code_simp
  have p: "contains (U ''+'') (py_lower (U ''Pad Bundle + Gift''))" by code_simp
  from exclusion_reason_first_applicable [OF run row gate name] m
  have "excluded_reason ?r = BUNDLE_FREE_GIFT" by blast
  with run gate m p show ?thesis by blast
qed

lemma compute_mode_size_alt:
  "compute_mode_size df =
     (if kept_sizes df = [] then None
      else case series_mode (kept_sizes df) of [] \<Rightarrow> None | v # _ \<Rightarrow> Some v)"
proof (cases "filter (\<lambda>r. excluded_reason r = NoReason) df = []")
  case True
  then show ?thesis by (simp add: compute_mode_size_def kept_sizes_def dropna_def)
next
  case False
  then show ?thesis by (simp add: compute_mode_size_def kept_sizes_def Let_def)
qed

lemma set_series_mode: "set (series_mode xs) \<subseteq> set xs"
  by (simp add: series_mode_def Let_def subset_iff)

lemma foldr_max_constant:
  "\<forall>x\<in>set xs. x = n \<Longrightarrow> foldr max xs (0::nat) = (if xs = [] then 0 else n)"
proof (induction xs)
  case Nil
  show ?case by simp
next
  case (Cons a xs)
  then show ?case by (cases "xs = []") simp_all
qed

lemma count_list_constant: "\<forall>x\<in>set xs. x = v \<Longrightarrow> count_list xs v = length xs"
  by (induction xs) simp_all

lemma distinct_constant:
  assumes "distinct zs" "zs \<noteq> []" "set zs \<subseteq> {v}"
  shows "zs = [v]"
proof (cases zs)
  case Nil
  with assms(2) show ?thesis by simp
next
  case (Cons a zs')
  have a: "a = v" using assms(3) Cons by simp
  have "set zs' \<subseteq> {v}" using assms(3) Cons by simp
  moreover have "v \<notin> set zs'" using assms(1) Cons a by simp
  ultimately have "zs' = []" by (cases zs') auto
  then show ?thesis using Cons a by simp
qed

lemma series_mode_constant:
  assumes ne: "xs \<noteq> []" and all: "\<forall>x\<in>set xs. x = v"
  shows "series_mode xs = [v]"
proof -
  have cnt: "count_list xs v = length xs"
    using all by (rule count_list_constant)
  have "\<forall>c\<in>set (map (count_list xs) xs). c = length xs"
    using all cnt by auto
  then have top: "foldr max (map (count_list xs) xs) 0 = length xs"
    using ne foldr_max_constant [of "map (count_list xs) xs" "length xs"] by simp
  have v: "v \<in> set xs" using ne all by (cases xs) auto
  have "v \<in> set (series_mode xs)"
    using v cnt by (simp add: series_mode_def top)
  then have nonempty: "series_mode xs \<noteq> []" by auto
  have "distinct (series_mode xs)"
    by (simp add: series_mode_def Let_def)
  moreover note nonempty
  moreover have "set (series_mode xs) \<subseteq> {v}"
    using set_series_mode [of xs] all by auto
  ultimately show ?thesis by (rule distinct_constant)
qed

lemma set_dropna: "set (dropna vs) = {x. Some x \<in> set vs}"
  by (induction vs) (auto simp: dropna_def split: option.splits)

lemma set_kept_sizes:
  "v \<in> set (kept_sizes df) \<longleftrightarrow> (\<exists>r\<in>set df. excluded_reason r = NoReason \<and> size_count r = Some v)"
  by (auto simp: kept_sizes_def set_dropna image_iff)

lemma provisional_idem:
  assumes "excluded_reason (settle m iv (provisional False r0)) = NoReason"
  shows "provisional False (settle m iv (provisional False r0)) = settle m iv (provisional False r0)"
proof -
  let ?r = "settle m iv (provisional False r0)"
  have s: "?r = provisional False r0"
    using assms by (auto simp: settle_def split: if_splits)
  have "base_reason (provisional False r0) = base_reason r0"
    by (simp add: base_reason_def check_include_condition_cong [of "provisional False r0" r0])
  moreover have "base_reason r0 = NoReason"
    using assms s by simp
  ultimately show ?thesis
    unfolding s by (simp add: provisional_def stored_size_def)
qed

subsection \<open>Running the classifier on its own kept table\<close>

text \<open>
  Up to \<open>2^53\<close> the float column holds every size exactly, and parsed sizes are never
  negative, so on a table within the exact range the storage of the column plays no role.
\<close>

lemma float64_of_int_exact:
  assumes "0 \<le> n" "n \<le> 2 ^ 53"
  shows "float64_of_int n = n"
proof (cases "n = 2 ^ 53")
  case True
  have "float64_of_int (2 ^ 53) = 2 ^ 53" by code_simp
  with True show ?thesis by simp
next
  case False
  with assms have "\<bar>n\<bar> < 2 ^ 53" by simp
  then have "bitlen \<bar>n\<bar> \<le> 53"
    using bitlen_le_iff_power [of "\<bar>n\<bar>" 53] by simp
  then show ?thesis by (simp add: float64_of_int_def Let_def)
qed

lemma int_of_digits_nonneg:
  "\<forall>c\<in>set ds. is_digit c \<Longrightarrow> 0 \<le> acc \<Longrightarrow> 0 \<le> foldl (\<lambda>acc c. 10 * acc + (c - 48)) acc ds"
  by (induction ds arbitrary: acc) (auto simp: is_digit_def)

lemma match_here_nonneg: "match_here s = Some n \<Longrightarrow> 0 \<le> n"
  using int_of_digits_nonneg [of "takeWhile is_digit s" 0]
  by (auto simp: match_here_def int_of_digits_def Let_def split: if_splits dest: set_takeWhileD)

lemma re_search_size_nonneg: "re_search_size s = Some n \<Longrightarrow> 0 \<le> n"
  by (induction s) (auto split: option.splits dest: match_here_nonneg)

lemma parse_size_nonneg: "parse_size_from_title t = Some n \<Longrightarrow> 0 \<le> n"
  by (auto simp: parse_size_from_title_def split: option.splits if_splits dest: re_search_size_nonneg)

lemma stored_size_exact:
  assumes "case parse_size_from_title t of None \<Rightarrow> True | Some n \<Rightarrow> n \<le> 2 ^ 53"
  shows "stored_size f (parse_size_from_title t) = parse_size_from_title t"
proof (cases "parse_size_from_title t")
  case None
  then show ?thesis by (simp add: stored_size_def)
next
  case (Some n)
  then have "0 \<le> n" "n \<le> 2 ^ 53" using assms parse_size_nonneg by auto
  then have "float64_of_int n = n" by (rule float64_of_int_exact)
  then show ?thesis by (simp add: stored_size_def Some)
qed

lemma provisional_exact:
  assumes "exact_sizes df"
  shows "map (provisional f) df = map (provisional False) df"
proof (rule map_cong [OF refl])
  fix r assume "r \<in> set df"
  then have "case parse_size_from_title (product_name r) of None \<Rightarrow> True | Some n \<Rightarrow> n \<le> 2 ^ 53"
    using assms by (simp add: exact_sizes_def list_all_iff)
  then show "provisional f r = provisional False r"
    by (simp add: provisional_def stored_size_exact)
qed

text \<open>
  Claim C8, as stated, fails beyond the exact range. In the sample table the row without a
  size makes the size column a float column, in which \<open>2^53 + 1\<close> is stored as \<open>2^53\<close>:
  the first run finds the modal size \<open>2^53\<close> and keeps the three sized rows. The kept
  table has a size in every title, so the second run holds the sizes as integers, finds
  the same modal size and excludes the row of \<open>2^53 + 1\<close> sheets as \<open>NON_STANDARD_SIZE\<close>.
\<close>

theorem classifier_rerun_counterexample:
  "filter_search_results huge_table (U ''pad'') False =
     ([(pad_row ''9007199254740992'')\<lparr>size_count := Some 9007199254740992\<rparr>,
       (pad_row ''9007199254740992'')\<lparr>size_count := Some 9007199254740992\<rparr>,
       (pad_row ''9007199254740993'')\<lparr>size_count := Some 9007199254740992\<rparr>],
      [sizeless_row\<lparr>excluded_reason := NON_STANDARD_SIZE\<rparr>],
      Some 9007199254740992) \<and>
   filter_search_results
     [(pad_row ''9007199254740992'')\<lparr>size_count := Some 9007199254740992\<rparr>,
      (pad_row ''9007199254740992'')\<lparr>size_count := Some 9007199254740992\<rparr>,
      (pad_row ''9007199254740993'')\<lparr>size_count := Some 9007199254740992\<rparr>]
     (U ''pad'') False =
     ([(pad_row ''9007199254740992'')\<lparr>size_count := Some 9007199254740992\<rparr>,
       (pad_row ''9007199254740992'')\<lparr>size_count := Some 9007199254740992\<rparr>],
      [(pad_row ''9007199254740993'')\<lparr>size_count := Some 9007199254740993,
                                       excluded_reason := NON_STANDARD_SIZE\<rparr>],
      Some 9007199254740992)"
  by code_simp

text \<open>
  Claim C8, amended. For a table within the exact range (every parsed size at most
  \<open>2^53\<close>),
  running the classifier again on the kept table of a first run, with the same
  \<open>include_variants\<close>, returns that kept table unchanged, excludes nothing (so no row
  becomes \<open>NON_STANDARD_SIZE\<close>) and reports the same modal size.
\<close>

theorem filter_search_results_idempotent:
  assumes run: "filter_search_results df query include_variants = (df_kept, df_excluded, mode_size)"
    and exact: "exact_sizes df"
  shows "filter_search_results df_kept query include_variants = (df_kept, [], mode_size)"
proof -
  define P where "P = map (provisional False) df"
  have P: "map (provisional (has_missing_size df)) df = P"
    unfolding P_def using exact by (rule provisional_exact)
  have m: "mode_size = compute_mode_size P"
    and K: "df_kept = filter (\<lambda>r. excluded_reason r = NoReason) (map (settle mode_size include_variants) P)"
    using run by (auto simp add: filter_search_results_rows Let_def P)
  have "exact_sizes df_kept"
    using exact unfolding K P_def exact_sizes_def list_all_iff by auto
  then have prov': "map (provisional (has_missing_size df_kept)) df_kept = map (provisional False) df_kept"
    by (rule provisional_exact)
  have prov: "map (provisional False) df_kept = df_kept"
    unfolding K P_def by (rule map_idI) (auto simp: provisional_idem)
  have settle_id: "settle mode_size include_variants r = r"
    if "r \<in> set df_kept" for r
    using that unfolding K by (auto simp: settle_def split: if_splits)
  have sizes: "kept_sizes df_kept = kept_sizes P" if "include_variants \<or> mode_size = None"
  proof -
    have "map (settle mode_size include_variants) P = P"
      using that by (intro map_idI) (auto simp: settle_def)
    then show ?thesis by (simp add: K kept_sizes_def)
  qed
  have mode: "compute_mode_size df_kept = mode_size"
  proof (cases "include_variants \<or> mode_size = None")
    case True
    then have "compute_mode_size df_kept = compute_mode_size P"
      by (simp only: compute_mode_size_alt sizes)
    then show ?thesis by (simp add: m)
  next
    case False
    then obtain v where v: "mode_size = Some v" and niv: "\<not> include_variants" by auto
    have "v \<in> set (series_mode (kept_sizes P))"
      using v m by (auto simp: compute_mode_size_alt split: if_splits list.splits)
    then have "v \<in> set (kept_sizes P)" using set_series_mode by blast
    then obtain r where r: "r \<in> set P" "excluded_reason r = NoReason" "size_count r = Some v"
      by (auto simp: set_kept_sizes)
    then have "settle mode_size include_variants r = r"
      by (simp add: settle_def v)
    then have "r \<in> set df_kept" using r unfolding K by force
    then have ne: "kept_sizes df_kept \<noteq> []"
      using r by (metis set_kept_sizes empty_iff empty_set)
    have "\<forall>x\<in>set (kept_sizes df_kept). x = v"
      unfolding K by (auto simp: set_kept_sizes settle_def v niv split: if_splits)
    then have "series_mode (kept_sizes df_kept) = [v]"
      using ne by (intro series_mode_constant)
    then show ?thesis using ne by (simp add: compute_mode_size_alt v)
  qed
  have "filter (\<lambda>r. excluded_reason r = NoReason) df_kept = df_kept"
    unfolding K by simp
  moreover have "filter (\<lambda>r. excluded_reason r \<noteq> NoReason) df_kept = []"
    unfolding K by simp
  moreover have "map (settle mode_size include_variants) df_kept = df_kept"
    by (rule map_idI) (rule settle_id)
  ultimately show ?thesis
    by (simp add: filter_search_results_rows Let_def prov' prov mode)
qed

theorem filter_search_results_idempotent_witness:
  "exact_sizes (pad_table @ [sizeless_row]) \<and>
   filter_search_results (pad_table @ [sizeless_row]) (U ''pad'') False =
     ([(pad_row ''70'')\<lparr>size_count := Some 70\<rparr>, (pad_row ''70'')\<lparr>size_count := Some 70\<rparr>],
      [(pad_row ''100'')\<lparr>size_count := Some 100, excluded_reason := NON_STANDARD_SIZE\<rparr>,
       sizeless_row\<lparr>excluded_reason := NON_STANDARD_SIZE\<rparr>],
      Some 70) \<and>
   filter_search_results
     [(pad_row ''70'')\<lparr>size_count := Some 70\<rparr>, (pad_row ''70'')\<lparr>size_count := Some 70\<rparr>]
     (U ''pad'') False =
     ([(pad_row ''70'')\<lparr>size_count := Some 70\<rparr>, (pad_row ''70'')\<lparr>size_count := Some 70\<rparr>],
      [], Some 70)"
proof -
  have run: "filter_search_results (pad_table @ [sizeless_row]) (U ''pad'') False =
     ([(pad_row ''70'')\<lparr>size_count := Some 70\<rparr>, (pad_row ''70'')\<lparr>size_count := Some 70\<rparr>],
      [(pad_row ''100'')\<lparr>size_count := Some 100, excluded_reason := NON_STANDARD_SIZE\<rparr>,
       sizeless_row\<lparr>excluded_reason := NON_STANDARD_SIZE\<rparr>],
      Some 70)"
    by code_simp
  have exact: "exact_sizes (pad_table @ [sizeless_row])" by code_simp
  from filter_search_results_idempotent [OF run exact] run exact show ?thesis by simp
qed

section \<open>Properties of the outlier detectors\<close>

text \<open>
  Claim C3, as stated: on the ten prices of \<open>test_v4_outlier.py\<close> the IQR statistics would
  be Q1 = 14250, Q3 = 26750, IQR = 12500 and upper = 45500. The code does not compute
  these values.
\<close>

theorem test_scenario_counterexample:
  "\<not> (Q1 (compute_stats test_prices) = 14250 \<and> Q3 (compute_stats test_prices) = 26750 \<and>
      IQR (compute_stats test_prices) = 12500 \<and> upper (compute_stats test_prices) = 45500)"
  by code_simp

text \<open>
  Claim C3, amended. On the ten prices, grouped by \<open>query\<close>, \<open>detect_outliers_iqr\<close>
  computes Q1 = 15750, Q3 = 28750, IQR = 13000, lower = -3750, upper = 48250 and
  median = 21000; it flags exactly the record priced 68000 (the group's outlier count is
  1), and the largest inlier price is 41600, which is at most 45500.
\<close>

theorem test_scenario_values:
  "(case detect_outliers_iqr test_data [U ''query''] False 50 of
      (df_before_outlier, df_inliers, df_outliers, stats_df) \<Rightarrow>
        map stats stats_df =
          [\<lparr>Q1 = 15750, Q3 = 28750, IQR = 13000, lower = - 3750, upper = 48250, median = 21000\<rparr>] \<and>
        map stats_row.outlier_count stats_df = [1] \<and>
        map price df_outliers = [68000] \<and>
        map price df_inliers = [8000, 12000, 15000, 18000, 20000, 22000, 25000, 30000, 41600] \<and>
        Max (set (map price df_inliers)) = 41600 \<and>
        Max (set (map price df_inliers)) \<le> 45500)"
  by code_simp

text \<open>
  Claim C5 at a table whose \<open>query\<close> is \<open>None\<close>. pandas names the group of the missing
  keys \<open>NaN\<close>, the row's own key is \<open>(None,)\<close>, so the lookup in \<open>stats_dict\<close> misses and
  the defaults 0, infinity and 0 are used: the group's statistics are computed and
  reported (lower = -3750, upper = 48250), yet no record is flagged, the deviation is 0
  everywhere, the record priced 68000 is returned among the inliers and the group's
  outlier count is 0.
\<close>

theorem iqr_null_group_never_flagged:
  "(case detect_outliers_iqr null_query_data [U ''query''] False 50 of
      (df_before_outlier, df_inliers, df_outliers, stats_df) \<Rightarrow>
        map (\<lambda>s. (group_key s, lower (stats s), upper (stats s), stats_row.outlier_count s)) stats_df =
          [([KNaN], - 3750, 48250, 0)] \<and>
        map price df_before_outlier = test_prices \<and>
        map outlier_flag df_before_outlier = replicate 10 False \<and>
        map deviation_pct df_before_outlier = replicate 10 0 \<and>
        map price df_inliers = test_prices \<and>
        df_outliers = [])"
  by code_simp

lemma cap_annotate_fields [simp]:
  "price (cap_annotate use_aux aux_pct st r) = price r"
  "bound_lower (cap_annotate use_aux aux_pct st r) = cap_lower st"
  "bound_upper (cap_annotate use_aux aux_pct st r) = cap_upper st"
  "deviation_pct (cap_annotate use_aux aux_pct st r) =
     (if cap_median st \<noteq> 0 then (of_int (price r) - cap_median st) / cap_median st * 100 else 0)"
  "outlier_flag (cap_annotate use_aux aux_pct st r) \<longleftrightarrow>
     of_int (price r) < cap_lower st \<or> cap_upper st < of_int (price r) \<or>
     (use_aux \<and> aux_pct \<le> \<bar>deviation_pct (cap_annotate use_aux aux_pct st r)\<bar>)"
  by (simp_all add: cap_annotate_def Let_def)

lemma detect_outliers_quantile_returns:
  assumes "0 \<le> upper_quantile" "upper_quantile \<le> 1"
  shows "\<exists>res. detect_outliers_quantile df group_cols upper_quantile use_aux aux_pct = Inr res"
  using assms by (simp add: detect_outliers_quantile_def compute_cap_stats_def Let_def)

lemma detect_outliers_quantile_raises:
  "detect_outliers_quantile df group_cols upper_quantile use_aux aux_pct = Inl e \<longleftrightarrow>
     e = ValueError \<and> population df \<noteq> [] \<and> (upper_quantile < 0 \<or> 1 < upper_quantile)"
  by (auto simp add: detect_outliers_quantile_def compute_cap_stats_def Let_def population_def
      split: if_splits)

text \<open>
  Claim C6. Whatever \<open>group_cols\<close> is, a run of \<open>detect_outliers_quantile\<close> that returns
  annotates exactly the records with a positive price, and each of them against the
  statistics of that whole population: \<open>bound_lower\<close> is the first quartile and
  \<open>bound_upper\<close> the \<open>upper_quantile\<close> quantile of all positive prices, the deviation is
  taken from the median of all positive prices, and the record is flagged exactly when its
  price is below that lower bound or above that upper bound (or, with the auxiliary rule,
  when its deviation reaches \<open>aux_pct\<close>). The inliers and outliers are the records with
  the flag false and true. The stats table has no row when there is no positive price and
  otherwise a single row, holding the statistics of the whole population and one outlier
  count, the number of flagged records of the whole table. The result is the one obtained
  with no group column at all. (The function returns for every quantile in \<open>[0, 1]\<close>, and
  raises \<open>ValueError\<close> exactly for other quantiles on a table with a positive price.)
\<close>

theorem quantile_bounds_over_whole_population:
  assumes run: "detect_outliers_quantile df group_cols upper_quantile use_aux aux_pct =
                  Inr (df_before_outlier, df_inliers, df_outliers, stats_df)"
  shows "map price df_before_outlier = population df \<and>
         (\<forall>r \<in> set df_before_outlier.
            bound_lower r = quantile (population df) (1 / 4) \<and>
            bound_upper r = quantile (population df) upper_quantile \<and>
            deviation_pct r =
              (if series_median (population df) \<noteq> 0
               then (of_int (price r) - series_median (population df)) / series_median (population df) * 100
               else 0) \<and>
            (outlier_flag r \<longleftrightarrow>
               of_int (price r) < quantile (population df) (1 / 4) \<or>
               quantile (population df) upper_quantile < of_int (price r) \<or>
               (use_aux \<and> aux_pct \<le> \<bar>deviation_pct r\<bar>))) \<and>
         df_inliers = filter (\<lambda>r. \<not> outlier_flag r) df_before_outlier \<and>
         df_outliers = filter outlier_flag df_before_outlier \<and>
         stats_df =
           (if population df = [] then []
            else [\<lparr>cap_Q1 = quantile (population df) (1 / 4),
                   upper_q = quantile (population df) upper_quantile,
                   cap_lower = quantile (population df) (1 / 4),
                   cap_upper = quantile (population df) upper_quantile,
                   cap_median = series_median (population df),
                   cap_method = upper_quantile,
                   cap_outlier_count = length df_outliers\<rparr>]) \<and>
         detect_outliers_quantile df [] upper_quantile use_aux aux_pct =
           Inr (df_before_outlier, df_inliers, df_outliers, stats_df)"
proof (cases "population df = []")
  case True
  then have "rows df = [] \<or> filter (\<lambda>r. 0 < price r) (rows df) = []"
    by (simp add: population_def)
  then have "detect_outliers_quantile df g upper_quantile use_aux aux_pct = Inr ([], [], [], [])" for g
    by (auto simp add: detect_outliers_quantile_def Let_def)
  with run True show ?thesis by simp
next
  case False
  define positive where "positive = filter (\<lambda>r. 0 < price r) (rows df)"
  have pos: "positive \<noteq> []" "rows df \<noteq> []"
    using False by (auto simp: population_def positive_def)
  have pop: "population df = map price positive"
    by (simp add: population_def positive_def)
  from run pos obtain st where st: "compute_cap_stats upper_quantile (map price positive) = Inr st"
    by (cases "compute_cap_stats upper_quantile (map price positive)")
       (auto simp add: detect_outliers_quantile_def Let_def positive_def)
  have fields: "cap_lower st = quantile (population df) (1 / 4)"
    "cap_upper st = quantile (population df) upper_quantile"
    "cap_median st = series_median (population df)"
    "cap_Q1 st = quantile (population df) (1 / 4)"
    "upper_q st = quantile (population df) upper_quantile"
    "cap_method st = upper_quantile"
    using st by (auto simp: compute_cap_stats_def Let_def pop split: if_splits)
  define B where "B = map (cap_annotate use_aux aux_pct st) positive"
  have hd: "bound_lower (hd B) = cap_lower st" "bound_upper (hd B) = cap_upper st"
    using pos by (simp_all add: B_def hd_map)
  have res: "detect_outliers_quantile df g upper_quantile use_aux aux_pct =
      Inr (B,
           (if use_aux
            then filter (\<lambda>r. \<bar>deviation_pct r\<bar> < aux_pct)
                   (filter (\<lambda>r. cap_lower st \<le> of_int (price r) \<and> of_int (price r) \<le> cap_upper st) B)
            else filter (\<lambda>r. cap_lower st \<le> of_int (price r) \<and> of_int (price r) \<le> cap_upper st) B),
           filter outlier_flag B,
           [st\<lparr>cap_outlier_count := length (filter outlier_flag B)\<rparr>])" for g
    using pos st hd
    by (simp add: detect_outliers_quantile_def Let_def positive_def [symmetric] B_def [symmetric]
        split del: if_split cong: if_cong)
  have flag: "outlier_flag r \<longleftrightarrow>
       of_int (price r) < cap_lower st \<or> cap_upper st < of_int (price r) \<or>
       (use_aux \<and> aux_pct \<le> \<bar>deviation_pct r\<bar>)" if "r \<in> set B" for r
    using that by (auto simp: B_def)
  have inl: "(if use_aux
            then filter (\<lambda>r. \<bar>deviation_pct r\<bar> < aux_pct)
                   (filter (\<lambda>r. cap_lower st \<le> of_int (price r) \<and> of_int (price r) \<le> cap_upper st) B)
            else filter (\<lambda>r. cap_lower st \<le> of_int (price r) \<and> of_int (price r) \<le> cap_upper st) B)
        = filter (\<lambda>r. \<not> outlier_flag r) B"
  proof (cases use_aux)
    case True
    have "filter (\<lambda>r. \<bar>deviation_pct r\<bar> < aux_pct)
            (filter (\<lambda>r. cap_lower st \<le> of_int (price r) \<and> of_int (price r) \<le> cap_upper st) B)
          = filter (\<lambda>r. \<not> outlier_flag r) B"
      unfolding filter_filter by (rule filter_cong [OF refl]) (use True flag in auto)
    with True show ?thesis by simp
  next
    case False
    have "filter (\<lambda>r. cap_lower st \<le> of_int (price r) \<and> of_int (price r) \<le> cap_upper st) B
          = filter (\<lambda>r. \<not> outlier_flag r) B"
      by (rule filter_cong [OF refl]) (use False flag in auto)
    with False show ?thesis by simp
  qed
  have dev: "deviation_pct r =
              (if cap_median st \<noteq> 0
               then (of_int (price r) - cap_median st) / cap_median st * 100 else 0)"
    and bl: "bound_lower r = cap_lower st" and bu: "bound_upper r = cap_upper st"
    if "r \<in> set B" for r
    using that by (auto simp: B_def)
  have eqs: "df_before_outlier = B" "df_inliers = filter (\<lambda>r. \<not> outlier_flag r) B"
    "df_outliers = filter outlier_flag B"
    "stats_df = [st\<lparr>cap_outlier_count := length (filter outlier_flag B)\<rparr>]"
    using run unfolding res inl by auto
  have prices: "map price B = population df"
    by (simp add: B_def pop o_def)
  have stats: "st\<lparr>cap_outlier_count := length (filter outlier_flag B)\<rparr> =
               \<lparr>cap_Q1 = quantile (population df) (1 / 4),
                 upper_q = quantile (population df) upper_quantile,
                 cap_lower = quantile (population df) (1 / 4),
                 cap_upper = quantile (population df) upper_quantile,
                 cap_median = series_median (population df),
                 cap_method = upper_quantile,
                 cap_outlier_count = length (filter outlier_flag B)\<rparr>"
    using fields by (cases st) simp
  have again: "detect_outliers_quantile df [] upper_quantile use_aux aux_pct =
           Inr (df_before_outlier, df_inliers, df_outliers, stats_df)"
    unfolding res inl eqs ..
  show ?thesis
    unfolding eqs(2-4) stats
    using False prices flag dev bl bu again
    by (simp add: eqs fields)
qed

theorem quantile_bounds_over_whole_population_witness:
  "\<exists>df_before_outlier df_inliers df_outliers st.
     detect_outliers_quantile two_queries [U ''query''] (3 / 4) False 50 =
       Inr (df_before_outlier, df_inliers, df_outliers, [st]) \<and>
     map price df_before_outlier = [100, 200, 1000, 3000] \<and>
     map bound_lower df_before_outlier = [175, 175, 175, 175] \<and>
     map bound_upper df_before_outlier = [1500, 1500, 1500, 1500] \<and>
     map outlier_flag df_before_outlier = [True, False, False, True] \<and>
     map price df_inliers = [200, 1000] \<and>
     map price df_outliers = [100, 3000] \<and>
     cap_lower st = 175 \<and> cap_upper st = 1500 \<and> cap_outlier_count st = 2 \<and>
     quantile [100, 200] (1 / 4) = 125 \<and> quantile [100, 200] (3 / 4) = 175"
proof -
  obtain B I O' S where run:
    "detect_outliers_quantile two_queries [U ''query''] (3 / 4) False 50 = Inr (B, I, O', S)"
    using detect_outliers_quantile_returns [of "3 / 4" two_queries "[U ''query'']" False 50]
    by auto
  have pop: "population two_queries = [100, 200, 1000, 3000]"
    by (simp add: population_def two_queries_def)
  have q1: "quantile [100, 200, 1000, 3000] (1 / 4) = 175" by code_simp
  have q3: "quantile [100, 200, 1000, 3000] (3 / 4) = 1500" by code_simp
  have md: "series_median [100, 200, 1000, 3000] = 600" by code_simp
  have g: "quantile [100, 200] (1 / 4) = 125" "quantile [100, 200] (3 / 4) = 175" by code_simp+
  note t = quantile_bounds_over_whole_population [OF run, unfolded pop q1 q3 md]
  from t have prices: "map price B = [100, 200, 1000, 3000]" by blast
  then obtain b0 b1 b2 b3 where B: "B = [b0, b1, b2, b3]"
    and p: "price b0 = 100" "price b1 = 200" "price b2 = 1000" "price b3 = 3000"
    by (auto simp: map_eq_Cons_conv)
  from t have all: "\<forall>r \<in> set B. bound_lower r = 175 \<and> bound_upper r = 1500 \<and>
      (outlier_flag r \<longleftrightarrow> of_int (price r) < (175::rat) \<or> (1500::rat) < of_int (price r))"
    by simp
  have flags: "outlier_flag b0" "\<not> outlier_flag b1" "\<not> outlier_flag b2" "outlier_flag b3"
    using all p by (simp_all add: B)
  have bounds: "map bound_lower B = [175, 175, 175, 175]" "map bound_upper B = [1500, 1500, 1500, 1500]"
    using all by (simp_all add: B)
  from t have I: "I = filter (\<lambda>r. \<not> outlier_flag r) B" and O': "O' = filter outlier_flag B" by blast+
  from t have S: "S = [\<lparr>cap_Q1 = 175, upper_q = 1500, cap_lower = 175, cap_upper = 1500,
                        cap_median = 600, cap_method = 3 / 4, cap_outlier_count = length O'\<rparr>]"
    by simp
  have "length O' = 2" by (simp add: O' B flags)
  with run S show ?thesis
    using prices bounds flags g by (simp add: I O' B p)
qed

subsection \<open>Quantiles under added extreme values\<close>

lemma lerp_bounds:
  assumes "sorted xs" "0 \<le> h" "nat \<lfloor>h\<rfloor> < length xs"
  shows "xs ! nat \<lfloor>h\<rfloor> \<le> lerp_at xs h"
    and "lerp_at xs h \<le> xs ! min (nat \<lfloor>h\<rfloor> + 1) (length xs - 1)"
proof -
  let ?i = "nat \<lfloor>h\<rfloor>" and ?j = "min (nat \<lfloor>h\<rfloor> + 1) (length xs - 1)"
  let ?g = "h - of_int \<lfloor>h\<rfloor>"
  have ij: "?i \<le> ?j" "?j < length xs" using assms(3) by auto
  have d: "0 \<le> xs ! ?j - xs ! ?i"
    using assms(1) ij by (simp add: sorted_nth_mono)
  have g: "0 \<le> ?g" "?g \<le> 1" by linarith+
  have eq: "lerp_at xs h = xs ! ?i + ?g * (xs ! ?j - xs ! ?i)"
    by (simp add: lerp_at_def Let_def)
  show "xs ! ?i \<le> lerp_at xs h"
    unfolding eq using d g by simp
  have "?g * (xs ! ?j - xs ! ?i) \<le> 1 * (xs ! ?j - xs ! ?i)"
    using d g by (intro mult_right_mono) auto
  then show "lerp_at xs h \<le> xs ! ?j"
    unfolding eq by simp
qed

lemma lerp_mono:
  assumes s: "sorted xs" and h: "0 \<le> h" "h \<le> h'" and top: "h' \<le> of_nat (length xs - 1)"
    and ne: "xs \<noteq> []"
  shows "lerp_at xs h \<le> lerp_at xs h'"
proof -
  let ?i = "nat \<lfloor>h\<rfloor>" and ?i' = "nat \<lfloor>h'\<rfloor>"
  have fl: "\<lfloor>h\<rfloor> \<le> \<lfloor>h'\<rfloor>" using h by (simp add: floor_mono)
  have "\<lfloor>h'\<rfloor> \<le> int (length xs - 1)" using top by (simp add: floor_le_iff)
  then have i': "?i' < length xs" using ne by (cases xs) auto
  have i: "?i \<le> ?i'" using fl by simp
  show ?thesis
  proof (cases "\<lfloor>h\<rfloor> = \<lfloor>h'\<rfloor>")
    case True
    let ?j = "min (?i + 1) (length xs - 1)"
    have d: "0 \<le> xs ! ?j - xs ! ?i"
      using s i' True by (simp add: sorted_nth_mono)
    have "(h - of_int \<lfloor>h\<rfloor>) * (xs ! ?j - xs ! ?i) \<le> (h' - of_int \<lfloor>h\<rfloor>) * (xs ! ?j - xs ! ?i)"
      using d h by (intro mult_right_mono) auto
    then show ?thesis
      by (simp add: lerp_at_def Let_def True [symmetric])
  next
    case False
    then have lt: "?i < ?i'" using fl h by linarith
    have "lerp_at xs h \<le> xs ! min (?i + 1) (length xs - 1)"
      using s h(1) lt i' by (intro lerp_bounds) auto
    also have "min (?i + 1) (length xs - 1) = ?i + 1" using lt i' by arith
    also have "xs ! (?i + 1) \<le> xs ! ?i'"
    proof -
      have "?i + 1 \<le> ?i'" using lt by arith
      then show ?thesis using s i' by (simp add: sorted_nth_mono)
    qed
    also have "xs ! ?i' \<le> lerp_at xs h'"
      using s h i' by (intro lerp_bounds) auto
    finally show ?thesis .
  qed
qed

lemma lerp_append:
  assumes "0 \<le> h" "h \<le> of_nat (length xs - 1)" "xs \<noteq> []"
  shows "lerp_at (xs @ [v]) h = lerp_at xs h"
proof -
  let ?i = "nat \<lfloor>h\<rfloor>"
  have "\<lfloor>h\<rfloor> \<le> int (length xs - 1)" using assms(2) by (simp add: floor_le_iff)
  then have i: "?i \<le> length xs - 1" by simp
  have n: "0 < length xs" using assms(3) by simp
  show ?thesis
  proof (cases "?i = length xs - 1")
    case True
    then have "\<lfloor>h\<rfloor> = int (length xs - 1)"
      using assms(1) by (simp add: nat_eq_iff)
    then have "of_int \<lfloor>h\<rfloor> = (of_nat (length xs - 1) :: rat)"
      by simp
    then have g: "h - of_int \<lfloor>h\<rfloor> = 0"
      using assms(2) of_int_floor_le [of h] by linarith
    have "?i < length xs" using True n by arith
    then have "(xs @ [v]) ! ?i = xs ! ?i" by (simp add: nth_append)
    then show ?thesis
      by (simp add: lerp_at_def Let_def g)
  next
    case False
    then have lt: "?i + 1 \<le> length xs - 1" using i by simp
    then have m1: "min (?i + 1) (length (xs @ [v]) - 1) = ?i + 1"
      and m2: "min (?i + 1) (length xs - 1) = ?i + 1" by simp_all
    have "?i < length xs" "?i + 1 < length xs" using lt n by arith+
    then have "(xs @ [v]) ! ?i = xs ! ?i" "(xs @ [v]) ! (?i + 1) = xs ! (?i + 1)"
      by (simp_all add: nth_append)
    then show ?thesis
      unfolding lerp_at_def Let_def m1 m2 by simp
  qed
qed

lemma lerp_cons:
  assumes "0 \<le> h" "xs \<noteq> []"
  shows "lerp_at (v # xs) (h + 1) = lerp_at xs h"
proof -
  have f: "\<lfloor>h + 1\<rfloor> = \<lfloor>h\<rfloor> + 1" by simp
  have i: "nat \<lfloor>h + 1\<rfloor> = Suc (nat \<lfloor>h\<rfloor>)" using assms(1) by (simp add: f nat_add_distrib)
  have n: "0 < length xs" using assms(2) by simp
  have j: "min (Suc (nat \<lfloor>h\<rfloor>) + 1) (length (v # xs) - 1) = Suc (min (nat \<lfloor>h\<rfloor> + 1) (length xs - 1))"
    using assms(2) by (cases xs) simp_all
  show ?thesis
    unfolding lerp_at_def Let_def i j by (simp add: f)
qed

lemma sort_cons_max:
  assumes "\<forall>p\<in>set ps. p \<le> (v::int)"
  shows "sort (v # ps) = sort ps @ [v]"
proof (rule properties_for_sort)
  show "mset (sort ps @ [v]) = mset (v # ps)" by simp
  show "sorted (sort ps @ [v])" using assms by (simp add: sorted_append)
qed

lemma sort_cons_min:
  assumes "\<forall>p\<in>set ps. (v::int) \<le> p"
  shows "sort (v # ps) = v # sort ps"
proof (rule properties_for_sort)
  show "mset (v # sort ps) = mset (v # ps)" by simp
  show "sorted (v # sort ps)" using assms by simp
qed

lemma sorted_rat_of_sort: "sorted (map rat_of_int (sort ps))"
  by (simp add: sorted_map)

lemma sort_eq_Nil [simp]: "sort ps = [] \<longleftrightarrow> ps = []"
  using length_sort [of "\<lambda>x. x" ps] by (metis length_0_conv)

lemma quantile_mono_q:
  assumes "ps \<noteq> []" "0 \<le> q" "q \<le> q'" "q' \<le> 1"
  shows "quantile ps q \<le> quantile ps q'"
proof -
  let ?n = "of_nat (length ps - 1) :: rat"
  have n: "0 \<le> ?n" by simp
  have "lerp_at (map of_int (sort ps)) (?n * q) \<le> lerp_at (map of_int (sort ps)) (?n * q')"
  proof (rule lerp_mono)
    show "sorted (map rat_of_int (sort ps))" by (rule sorted_rat_of_sort)
    show "0 \<le> ?n * q" using assms(2) by simp
    show "?n * q \<le> ?n * q'" using assms(3) by (simp add: mult_left_mono)
    have "?n * q' \<le> ?n * 1" using assms(4) by (intro mult_left_mono) simp_all
    then show "?n * q' \<le> of_nat (length (map rat_of_int (sort ps)) - 1)" by simp
    show "map rat_of_int (sort ps) \<noteq> []" using assms(1) by simp
  qed
  then show ?thesis using assms(1) by (simp add: quantile_def)
qed

lemma quantile_add_max:
  assumes ne: "ps \<noteq> []" and q: "0 \<le> q" "q \<le> 1" and v: "\<forall>p\<in>set ps. p \<le> v"
  shows "quantile ps q \<le> quantile (v # ps) q"
proof -
  let ?xs = "map rat_of_int (sort ps)"
  let ?n = "of_nat (length ps - 1) :: rat"
  have len: "of_nat (length ps) = ?n + 1" using ne by (cases ps) simp_all
  have xs: "?xs \<noteq> []" using ne by simp
  have s: "sorted (?xs @ [of_int v])"
    using sorted_rat_of_sort [of "v # ps"] unfolding sort_cons_max [OF v] by simp
  have "quantile ps q = lerp_at ?xs (?n * q)" using ne by (simp add: quantile_def)
  also have "\<dots> = lerp_at (?xs @ [of_int v]) (?n * q)"
  proof (rule lerp_append [symmetric])
    show "0 \<le> ?n * q" using q by simp
    have "?n * q \<le> ?n * 1" using q by (intro mult_left_mono) simp_all
    then show "?n * q \<le> of_nat (length ?xs - 1)" by simp
    show "?xs \<noteq> []" by (rule xs)
  qed
  also have "\<dots> \<le> lerp_at (?xs @ [of_int v]) (of_nat (length ps) * q)"
  proof (rule lerp_mono [OF s])
    show "0 \<le> ?n * q" using q by simp
    have "of_nat (length ps) * q = ?n * q + q"
      by (simp only: len distrib_right mult_1)
    then show "?n * q \<le> of_nat (length ps) * q" using q by linarith
    have "of_nat (length ps) * q \<le> of_nat (length ps) * 1" using q by (intro mult_left_mono) simp_all
    then show "of_nat (length ps) * q \<le> of_nat (length (?xs @ [of_int v]) - 1)" by simp
    show "?xs @ [of_int v] \<noteq> []" by simp
  qed
  also have "\<dots> = quantile (v # ps) q"
    by (simp add: quantile_def sort_cons_max [OF v] del: sort_key_simps)
  finally show ?thesis .
qed

lemma quantile_add_min:
  assumes ne: "ps \<noteq> []" and q: "0 \<le> q" "q \<le> 1" and v: "\<forall>p\<in>set ps. v \<le> p"
  shows "quantile (v # ps) q \<le> quantile ps q"
proof -
  let ?xs = "map rat_of_int (sort ps)"
  let ?n = "of_nat (length ps - 1) :: rat"
  have len: "of_nat (length ps) = ?n + 1" using ne by (cases ps) simp_all
  have xs: "?xs \<noteq> []" using ne by simp
  have s: "sorted (of_int v # ?xs)"
    using sorted_rat_of_sort [of "v # ps"] unfolding sort_cons_min [OF v] by simp
  have "quantile (v # ps) q = lerp_at (of_int v # ?xs) (of_nat (length ps) * q)"
    by (simp add: quantile_def sort_cons_min [OF v] del: sort_key_simps)
  also have "\<dots> \<le> lerp_at (of_int v # ?xs) (?n * q + 1)"
  proof (rule lerp_mono [OF s])
    show "0 \<le> of_nat (length ps) * q" using q by simp
    have "of_nat (length ps) * q = ?n * q + q"
      by (simp only: len distrib_right mult_1)
    then show "of_nat (length ps) * q \<le> ?n * q + 1" using q by linarith
    have top: "?n * q \<le> ?n * 1" using q by (intro mult_left_mono) simp_all
    have "of_nat (length (of_int v # ?xs) - 1) = (of_nat (length ps) :: rat)" by simp
    then show "?n * q + 1 \<le> of_nat (length (of_int v # ?xs) - 1)"
      using top len by (simp only: mult_1_right)
    show "of_int v # ?xs \<noteq> []" by simp
  qed
  also have "\<dots> = lerp_at ?xs (?n * q)"
    using q xs by (intro lerp_cons) simp_all
  also have "\<dots> = quantile ps q" using ne by (simp add: quantile_def)
  finally show ?thesis .
qed

text \<open>
  Claim C7, as stated: adding a value beyond the current maximum would never decrease
  \<open>upper - lower\<close>. For the prices 1000, 1000 and six times 20000 the width is 19000;
  after adding 30000 both quartiles are 20000 and the width is 0.
\<close>

theorem iqr_width_shrinks_counterexample:
  "Max (set skewed_prices) < 30000 \<and>
   upper (compute_stats skewed_prices) - lower (compute_stats skewed_prices) = 19000 \<and>
   upper (compute_stats (skewed_prices @ [30000])) - lower (compute_stats (skewed_prices @ [30000])) = 0 \<and>
   \<not> (upper (compute_stats skewed_prices) - lower (compute_stats skewed_prices)
        \<le> upper (compute_stats (skewed_prices @ [30000])) - lower (compute_stats (skewed_prices @ [30000])))"
  by code_simp

lemma quantile_snoc: "quantile (ps @ [v]) q = quantile (v # ps) q"
proof -
  have "sort (ps @ [v]) = sort (v # ps)"
    by (rule properties_for_sort) (simp_all del: sort_key_simps)
  then show ?thesis by (simp add: quantile_def del: sort_key_simps)
qed

text \<open>
  Claim C7, amended. For every non-empty group of prices the width \<open>upper - lower\<close> computed
  by \<open>compute_stats\<close> is four times the IQR and is never negative; adding a value at or
  above every price of the group never decreases Q1 or Q3, and adding a value at or below
  every price never increases them. (The width itself may shrink, as Q1 can rise more than
  Q3.)
\<close>

theorem quartiles_follow_added_extreme:
  assumes "prices \<noteq> []"
  shows "upper (compute_stats prices) - lower (compute_stats prices) = 4 * IQR (compute_stats prices) \<and>
         0 \<le> IQR (compute_stats prices) \<and>
         ((\<forall>p\<in>set prices. p \<le> v) \<longrightarrow>
            Q1 (compute_stats prices) \<le> Q1 (compute_stats (prices @ [v])) \<and>
            Q3 (compute_stats prices) \<le> Q3 (compute_stats (prices @ [v]))) \<and>
         ((\<forall>p\<in>set prices. v \<le> p) \<longrightarrow>
            Q1 (compute_stats (prices @ [v])) \<le> Q1 (compute_stats prices) \<and>
            Q3 (compute_stats (prices @ [v])) \<le> Q3 (compute_stats prices))"
proof -
  have width: "upper (compute_stats prices) - lower (compute_stats prices) = 4 * IQR (compute_stats prices)"
    by (simp add: compute_stats_def Let_def)
  have "quantile prices (1 / 4) \<le> quantile prices (3 / 4)"
    using assms by (intro quantile_mono_q) simp_all
  then have iqr: "0 \<le> IQR (compute_stats prices)"
    by (simp add: compute_stats_def Let_def)
  have up: "quantile prices q \<le> quantile (prices @ [v]) q"
    if "\<forall>p\<in>set prices. p \<le> v" "0 \<le> q" "q \<le> 1" for q
    using quantile_add_max [OF assms that(2,3,1)] by (simp only: quantile_snoc)
  have down: "quantile (prices @ [v]) q \<le> quantile prices q"
    if "\<forall>p\<in>set prices. v \<le> p" "0 \<le> q" "q \<le> 1" for q
    using quantile_add_min [OF assms that(2,3,1)] by (simp only: quantile_snoc)
  show ?thesis
    using width iqr up [of "1 / 4"] up [of "3 / 4"] down [of "1 / 4"] down [of "3 / 4"]
    by (simp add: compute_stats_def Let_def)
qed

theorem quartiles_follow_added_extreme_witness:
  "skewed_prices \<noteq> [] \<and>
   upper (compute_stats skewed_prices) - lower (compute_stats skewed_prices) =
     4 * IQR (compute_stats skewed_prices) \<and>
   0 \<le> IQR (compute_stats skewed_prices) \<and>
   Q1 (compute_stats skewed_prices) \<le> Q1 (compute_stats (skewed_prices @ [30000])) \<and>
   Q3 (compute_stats skewed_prices) \<le> Q3 (compute_stats (skewed_prices @ [30000])) \<and>
   Q1 (compute_stats (skewed_prices @ [500])) \<le> Q1 (compute_stats skewed_prices) \<and>
   Q3 (compute_stats (skewed_prices @ [500])) \<le> Q3 (compute_stats skewed_prices)"
proof -
  have ne: "skewed_prices \<noteq> []" by (simp add: skewed_prices_def)
  have hi: "\<forall>p\<in>set skewed_prices. p \<le> 30000" by (simp add: skewed_prices_def)
  have lo: "\<forall>p\<in>set skewed_prices. 500 \<le> p" by (simp add: skewed_prices_def)
  from quartiles_follow_added_extreme [OF ne, of 30000]
       quartiles_follow_added_extreme [OF ne, of 500] hi lo ne
  show ?thesis by blast
qed

section \<open>Properties of the seller outlier summarizer\<close>

text \<open>
  The rate of 23 outliers among 160 records: the exact value is 14.375, the float product
  lies just below it, and the rounding gives the float nearest to 14.37.
\<close>

lemma outlier_rate_of_examples:
  "outlier_rate_of 23 160 = float64 (1437 / 100)"
  "outlier_rate_of 1 2 = 50"
  "outlier_rate_of 1 3 = float64 (3333 / 100)"
  "outlier_rate_of 0 5 = 0"
  by code_simp+

lemma usable_chooses_seller:
  assumes "usable (U ''seller'') df"
  shows "build_seller_outlier_summary mean df = summarise mean (U ''seller'') (rows df)"
proof -
  from assms obtain r s where r: "r \<in> set (rows df)" "attrs r (U ''seller'') = Some s" "py_strip s \<noteq> []"
    and col: "U ''seller'' \<in> set (columns df)"
    by (auto simp: usable_def list_ex_iff split: option.splits)
  have "list_ex notna (map (\<lambda>r. attrs r (U ''seller'')) (rows df))"
    using r by (auto simp: list_ex_iff notna_def)
  moreover have "list_ex nonblank_str (map (\<lambda>r. attrs r (U ''seller'')) (rows df))"
    using r by (force simp: list_ex_iff nonblank_str_def py_str_def)
  ultimately show ?thesis
    using col by (simp add: build_seller_outlier_summary_def Let_def)
qed

lemma summarise_unusable:
  assumes "\<not> usable col df"
  shows "col \<in> set (columns df) \<Longrightarrow> summarise mean col (rows df) = empty_summary"
proof -
  assume "col \<in> set (columns df)"
  with assms have "\<forall>r\<in>set (rows df). \<not> (notna (attrs r col) \<and> nonblank_str (attrs r col))"
    by (auto simp: usable_def list_ex_iff notna_def nonblank_str_def py_str_def split: option.splits)
  then have "filter (\<lambda>r. notna (attrs r col) \<and> nonblank_str (attrs r col)) (rows df) = []"
    by (simp add: filter_empty_conv)
  then show ?thesis by (simp add: summarise_def)
qed

lemma neither_usable_empty:
  assumes "\<not> usable (U ''seller'') df" "\<not> usable (U ''mall_name'') df"
  shows "build_seller_outlier_summary mean df = empty_summary"
proof (cases "U ''seller'' \<in> set (columns df)")
  case True
  then show ?thesis
    using assms summarise_unusable [of "U ''seller''" df] summarise_unusable [of "U ''mall_name''" df]
    by (simp add: build_seller_outlier_summary_def Let_def)
next
  case False
  then show ?thesis
    using assms summarise_unusable [of "U ''mall_name''" df]
    by (simp add: build_seller_outlier_summary_def Let_def)
qed

text \<open>
  The fallback to \<open>mall_name\<close> is taken when the table has no \<open>seller\<close> column, when every
  seller is missing, and when every seller is a blank text. When the sellers are partly
  missing and partly blank it is not taken, and the summary is empty.
\<close>

lemma fallback_taken:
  assumes "U ''seller'' \<notin> set (columns df) \<or>
           (\<forall>r\<in>set (rows df). attrs r (U ''seller'') = None) \<or>
           (\<forall>r\<in>set (rows df). \<exists>s. attrs r (U ''seller'') = Some s \<and> py_strip s = [])"
    and "U ''mall_name'' \<in> set (columns df)"
  shows "build_seller_outlier_summary mean df = summarise mean (U ''mall_name'') (rows df)"
proof -
  have "\<not> (U ''seller'' \<in> set (columns df) \<and>
           list_ex notna (map (\<lambda>r. attrs r (U ''seller'')) (rows df)) \<and>
           list_ex nonblank_str (map (\<lambda>r. attrs r (U ''seller'')) (rows df)))"
    using assms(1) by (auto simp: list_ex_iff notna_def nonblank_str_def py_str_def)
  then show ?thesis
    using assms(2) by (auto simp add: build_seller_outlier_summary_def Let_def)
qed

lemma fallback_missed:
  assumes "U ''seller'' \<in> set (columns df)"
    and "\<not> usable (U ''seller'') df"
    and "\<exists>r\<in>set (rows df). attrs r (U ''seller'') = None"
    and "\<exists>r\<in>set (rows df). attrs r (U ''seller'') \<noteq> None"
  shows "build_seller_outlier_summary mean df = empty_summary"
proof -
  have "list_ex notna (map (\<lambda>r. attrs r (U ''seller'')) (rows df))"
    using assms(4) by (auto simp: list_ex_iff notna_def)
  moreover have "list_ex nonblank_str (map (\<lambda>r. attrs r (U ''seller'')) (rows df))"
  proof -
    from assms(3) obtain r where r: "r \<in> set (rows df)" "attrs r (U ''seller'') = None" by auto
    have "py_strip (U ''None'') \<noteq> []" by code_simp
    then have "nonblank_str (attrs r (U ''seller''))"
      by (simp add: nonblank_str_def py_str_def r(2))
    with r(1) show ?thesis by (auto simp: list_ex_iff)
  qed
  ultimately have "build_seller_outlier_summary mean df = summarise mean (U ''seller'') (rows df)"
    using assms(1) by (simp add: build_seller_outlier_summary_def Let_def)
  then show ?thesis
    using summarise_unusable [OF assms(2) assms(1)] by simp
qed

lemma aggregate_seller [simp]: "seller (aggregate mean col df k) = k"
  by (simp add: aggregate_def Let_def)

lemma aggregate_filter:
  assumes "py_strip k \<noteq> []"
  shows "aggregate mean col (filter (\<lambda>r. notna (attrs r col) \<and> nonblank_str (attrs r col)) df) k =
         aggregate mean col df k"
proof -
  have "filter (\<lambda>r. attrs r col = Some k) (filter (\<lambda>r. notna (attrs r col) \<and> nonblank_str (attrs r col)) df)
        = filter (\<lambda>r. attrs r col = Some k) df"
    using assms by (auto simp: notna_def nonblank_str_def py_str_def intro!: filter_cong)
  then show ?thesis by (simp add: aggregate_def)
qed

text \<open>
  Whatever the group column, the summary built from it is well formed: keys are not
  blank, each row is the aggregate of its key's records with the rate
  \<open>outlier_count / total_count * 100\<close> rounded to two decimals, there is one row per key,
  and the rates descend.
\<close>

lemma summarise_well_formed: "well_formed_summary mean col df (summarise mean col df)"
proof (cases "filter (\<lambda>r. notna (attrs r col) \<and> nonblank_str (attrs r col)) df = []")
  case True
  then show ?thesis
    by (simp add: summarise_def well_formed_summary_def empty_summary_def)
next
  case False
  define kept where "kept = filter (\<lambda>r. notna (attrs r col) \<and> nonblank_str (attrs r col)) df"
  define keys where "keys = sort (remdups (dropna (map (\<lambda>r. attrs r col) kept)))"
  define summary where "summary = map (aggregate mean col kept) keys"
  have out: "rows (summarise mean col df) = rev (sort_key outlier_rate (rev summary))"
    using False by (simp add: summarise_def Let_def kept_def keys_def summary_def)
  have keys: "k \<in> set keys \<longleftrightarrow> (\<exists>r\<in>set kept. attrs r col = Some k)" for k
    unfolding keys_def by (simp add: set_dropna image_iff) metis
  have nonblank: "py_strip k \<noteq> []" if "k \<in> set keys" for k
    using that by (auto simp: keys kept_def nonblank_str_def py_str_def)
  have dk: "distinct keys" by (simp add: keys_def)
  have set_out: "set (rows (summarise mean col df)) = aggregate mean col kept ` set keys"
    by (simp add: out summary_def)
  have row: "py_strip (seller row) \<noteq> [] \<and> row = aggregate mean col df (seller row) \<and>
        0 < total_count row \<and> outlier_count row \<le> total_count row \<and>
        outlier_rate row = outlier_rate_of (outlier_count row) (total_count row)"
    if "row \<in> set (rows (summarise mean col df))" for row
  proof -
    from that obtain k where k: "k \<in> set keys" and r: "row = aggregate mean col kept k"
      by (auto simp: set_out)
    have r': "row = aggregate mean col df k"
      using r nonblank [OF k] by (simp add: kept_def aggregate_filter)
    from k obtain x where "x \<in> set kept" "attrs x col = Some k" by (auto simp: keys)
    then have "filter (\<lambda>r. attrs r col = Some k) df \<noteq> []"
      by (auto simp: kept_def filter_empty_conv)
    then have "0 < total_count row"
      by (simp add: r' aggregate_def Let_def)
    moreover have "outlier_count row \<le> total_count row"
      by (simp add: r' aggregate_def Let_def del: filter_filter)
    moreover have "outlier_rate row = outlier_rate_of (outlier_count row) (total_count row)"
      by (simp add: r' aggregate_def Let_def)
    ultimately show ?thesis using nonblank [OF k] r' by simp
  qed
  have "mset (map seller (rows (summarise mean col df))) = mset keys"
    by (simp add: out summary_def multiset.map_comp o_def)
  then have dist: "distinct (map seller (rows (summarise mean col df)))"
    using dk mset_eq_imp_distinct_iff by blast
  have "rev (map outlier_rate (rows (summarise mean col df))) = map outlier_rate (sort_key outlier_rate (rev summary))"
    by (simp add: out rev_map)
  then have sorted: "sorted (rev (map outlier_rate (rows (summarise mean col df))))"
    by simp
  show ?thesis
    unfolding well_formed_summary_def using row dist sorted by blast
qed

text \<open>
  Claim C9 at a table whose \<open>seller\<close> is missing in one record and blank in the other,
  while both records carry the mall name \<open>shopA\<close>. The seller column is entirely absent or
  blank, so it is not usable, and \<open>mall_name\<close> is usable; the summary by \<open>mall_name\<close> would
  have the row of \<open>shopA\<close> with two records, one outlier and the rate 50. The function
  nevertheless chooses \<open>seller\<close>: the test for a value that is not missing is met by the
  blank record and the test for a value that is not blank is met by the missing one, which
  prints as \<open>None\<close>. It then drops both records and returns the empty table. When the
  seller is missing in both records the fallback is taken and the row of \<open>shopA\<close> is
  returned.
\<close>

theorem seller_fallback_missed:
  "build_seller_outlier_summary mean blank_seller_shops = empty_summary \<and>
   \<not> usable (U ''seller'') blank_seller_shops \<and>
   usable (U ''mall_name'') blank_seller_shops \<and>
   map (\<lambda>s. (seller s, total_count s, summary_row.outlier_count s, outlier_rate s))
       (rows (summarise mean (U ''mall_name'') (rows blank_seller_shops))) =
     [(U ''shopA'', 2, 1, 50)] \<and>
   map (\<lambda>s. (seller s, total_count s, summary_row.outlier_count s, outlier_rate s))
       (rows (build_seller_outlier_summary mean absent_seller_shops)) =
     [(U ''shopA'', 2, 1, 50)]"
  by code_simp

section \<open>Properties of the column normalizer\<close>

subsection \<open>Renaming keeps the columns\<close>

lemma names_rename: "names (rename old new df) = map (\<lambda>n. if n = old then new else n) (names df)"
  by (simp add: names_def rename_def case_prod_beta)

lemma values_rename: "map snd (rename old new df) = map snd df"
  by (simp add: rename_def case_prod_beta)

lemma nrows_values: "map snd df = map snd df' \<Longrightarrow> nrows df = nrows df'"
  by (cases df; cases df') (auto simp: nrows_def)

lemma set_names_rename: "set (names (rename old new df)) \<subseteq> insert new (set (names df))"
  by (auto simp: names_rename)


lemma apply_mapping_step:
  assumes "set ms \<subseteq> set column_mapping"
    and "map snd df = map snd df0" "set (names df) \<subseteq> set (names df0) \<union> mapped_targets df0"
  shows "map snd (foldl (\<lambda>df (source, target).
              case existing_cols_lower df0 (py_lower source) of
                None \<Rightarrow> df
              | Some original_col \<Rightarrow>
                  if target \<notin> set (names df) then rename original_col target df else df) df ms) = map snd df0
       \<and> set (names (foldl (\<lambda>df (source, target).
              case existing_cols_lower df0 (py_lower source) of
                None \<Rightarrow> df
              | Some original_col \<Rightarrow>
                  if target \<notin> set (names df) then rename original_col target df else df) df ms))
          \<subseteq> set (names df0) \<union> mapped_targets df0"
  using assms
proof (induction ms arbitrary: df)
  case Nil
  then show ?case by simp
next
  case (Cons m ms)
  obtain s t where m: "m = (s, t)" by (cases m)
  let ?df' = "case existing_cols_lower df0 (py_lower s) of
                None \<Rightarrow> df
              | Some original_col \<Rightarrow>
                  if t \<notin> set (names df) then rename original_col t df else df"
  have st: "(s, t) \<in> set column_mapping" using Cons.prems(1) m by simp
  have v: "map snd ?df' = map snd df0"
    using Cons.prems(2) by (simp add: values_rename split: option.splits)
  have n: "set (names ?df') \<subseteq> set (names df0) \<union> mapped_targets df0"
  proof (cases "existing_cols_lower df0 (py_lower s)")
    case None
    then show ?thesis using Cons.prems(3) by simp
  next
    case (Some original_col)
    then have "t \<in> mapped_targets df0" using st by (auto simp: mapped_targets_def)
    then show ?thesis
      using Cons.prems(3) set_names_rename [of original_col t df] Some by auto
  qed
  have "set ms \<subseteq> set column_mapping" using Cons.prems(1) by simp
  from Cons.IH [OF this v n] show ?case by (simp add: m)
qed

lemma apply_mapping_props:
  "map snd (apply_mapping (existing_cols_lower df0) df0) = map snd df0"
  "set (names (apply_mapping (existing_cols_lower df0) df0)) \<subseteq> set (names df0) \<union> mapped_targets df0"
  using apply_mapping_step [of column_mapping df0 df0]
  by (simp_all add: apply_mapping_def)

lemma normalise_case_step:
  assumes "set cols \<subseteq> set (names df1)"
    and "map snd df = map snd df1" "set (names df) \<subseteq> set (names df1) \<union> cased_targets df1"
  shows "map snd (foldl (\<lambda>df col.
              case find (\<lambda>std_col. py_strip (py_lower col) = py_lower std_col \<and> col \<noteq> std_col)
                        standard_columns of
                None \<Rightarrow> df
              | Some std_col \<Rightarrow> rename col std_col df) df cols) = map snd df1
       \<and> set (names (foldl (\<lambda>df col.
              case find (\<lambda>std_col. py_strip (py_lower col) = py_lower std_col \<and> col \<noteq> std_col)
                        standard_columns of
                None \<Rightarrow> df
              | Some std_col \<Rightarrow> rename col std_col df) df cols))
          \<subseteq> set (names df1) \<union> cased_targets df1"
  using assms
proof (induction cols arbitrary: df)
  case Nil
  then show ?case by simp
next
  case (Cons col cols)
  let ?df' = "case find (\<lambda>std_col. py_strip (py_lower col) = py_lower std_col \<and> col \<noteq> std_col)
                        standard_columns of
                None \<Rightarrow> df
              | Some std_col \<Rightarrow> rename col std_col df"
  have c: "col \<in> set (names df1)" using Cons.prems(1) by simp
  have v: "map snd ?df' = map snd df1"
    using Cons.prems(2) by (simp add: values_rename split: option.splits)
  have n: "set (names ?df') \<subseteq> set (names df1) \<union> cased_targets df1"
  proof (cases "find (\<lambda>std_col. py_strip (py_lower col) = py_lower std_col \<and> col \<noteq> std_col) standard_columns")
    case None
    then show ?thesis using Cons.prems(3) by simp
  next
    case (Some std_col)
    then have "std_col \<in> set standard_columns" "py_strip (py_lower col) = py_lower std_col"
      by (auto simp: find_Some_iff)
    then have "std_col \<in> cased_targets df1" using c by (auto simp: cased_targets_def)
    then show ?thesis
      using Cons.prems(3) set_names_rename [of col std_col df] Some by auto
  qed
  have "set cols \<subseteq> set (names df1)" using Cons.prems(1) by simp
  from Cons.IH [OF this v n] show ?case by simp
qed

lemma normalise_case_props:
  "map snd (normalise_case df1) = map snd df1"
  "set (names (normalise_case df1)) \<subseteq> set (names df1) \<union> cased_targets df1"
  using normalise_case_step [of "names df1" df1 df1]
  by (simp_all add: normalise_case_def)

lemma nrows_append: "nrows (df @ [(c, replicate (nrows df) v)]) = nrows df"
  by (cases df) (auto simp: nrows_def)

lemma add_missing_step:
  assumes "distinct cs"
  shows "foldl (\<lambda>df col. if col \<notin> set (names df) then df @ [(col, replicate (nrows df) Null)] else df) df cs
         = df @ map (\<lambda>col. (col, replicate (nrows df) Null)) (filter (\<lambda>col. col \<notin> set (names df)) cs)"
  using assms
proof (induction cs arbitrary: df)
  case Nil
  then show ?case by simp
next
  case (Cons c cs)
  show ?case
  proof (cases "c \<in> set (names df)")
    case True
    then show ?thesis using Cons by simp
  next
    case False
    let ?df' = "df @ [(c, replicate (nrows df) Null)]"
    have "filter (\<lambda>col. col \<notin> set (names ?df')) cs = filter (\<lambda>col. col \<notin> set (names df)) cs"
      using Cons.prems by (intro filter_cong) (auto simp: names_def)
    then show ?thesis
      using False Cons by (simp add: nrows_append)
  qed
qed

lemma distinct_standard_columns: "distinct standard_columns"
  by code_simp

lemma add_missing_eq:
  "add_missing df =
     df @ map (\<lambda>col. (col, replicate (nrows df) Null))
              (filter (\<lambda>col. col \<notin> set (names df)) standard_columns)"
  unfolding add_missing_def by (rule add_missing_step) (rule distinct_standard_columns)



lemma targets_standard_all: "list_all (\<lambda>(s, t). t \<in> set standard_columns) column_mapping"
  by code_simp

lemma targets_standard: "(s, t) \<in> set column_mapping \<Longrightarrow> t \<in> set standard_columns"
  using targets_standard_all by (auto simp: list_all_iff)




lemma values_after_loops:
  "map snd (normalise_case (apply_mapping (existing_cols_lower df0) df0)) = map snd df0"
  by (simp add: normalise_case_props(1) apply_mapping_props(1))

lemma price_in_add_missing: "U ''price'' \<in> set (names (add_missing df))"
proof -
  have "U ''price'' \<in> set standard_columns" by code_simp
  then show ?thesis by (auto simp: add_missing_eq names_def image_iff)
qed

lemma map_columns_Inr:
  assumes "map_columns to_num beyond df0 = Inr out"
  shows "out = coerced to_num beyond
                 (add_missing (normalise_case (apply_mapping (existing_cols_lower df0) df0)))"
  using assms price_in_add_missing
  by (simp add: map_columns_def Let_def coerced_def split: if_splits)


lemma standard_in_add_missing: "set standard_columns \<subseteq> set (names (add_missing df))"
  by (auto simp: add_missing_eq names_def image_iff)

lemma keeps_refl: "keeps df df"
  by (simp add: keeps_def list_all2_same)

lemma keeps_rename:
  assumes "keeps df0 df" "t \<in> set standard_columns"
  shows "keeps df0 (rename old t df)"
  using assms unfolding keeps_def rename_def
  by (auto simp: list_all2_map2 case_prod_beta elim!: list_all2_mono)

lemma foldl_invariant:
  assumes "I x" and "\<And>x a. a \<in> set as \<Longrightarrow> I x \<Longrightarrow> I (f x a)"
  shows "I (foldl f x as)"
  using assms by (induction as arbitrary: x) auto

lemma keeps_apply_mapping: "keeps df0 (apply_mapping existing df0)"
  unfolding apply_mapping_def
proof (rule foldl_invariant [where I = "keeps df0"])
  show "keeps df0 df0" by (rule keeps_refl)
next
  fix df :: table and m
  assume m: "m \<in> set column_mapping" and k: "keeps df0 df"
  obtain s t where st: "m = (s, t)" by (cases m)
  have "t \<in> set standard_columns" using m st targets_standard by blast
  then show "keeps df0 (case m of (source, target) \<Rightarrow>
              case existing (py_lower source) of
                None \<Rightarrow> df
              | Some original_col \<Rightarrow>
                  if target \<notin> set (names df) then rename original_col target df else df)"
    using k by (auto simp: st keeps_rename split: option.splits)
qed

lemma keeps_normalise_case:
  assumes "keeps df0 df1"
  shows "keeps df0 (normalise_case df1)"
  unfolding normalise_case_def
proof (rule foldl_invariant [where I = "keeps df0"])
  show "keeps df0 df1" by (rule assms)
next
  fix df :: table and col
  assume k: "keeps df0 df"
  show "keeps df0 (case find (\<lambda>std_col. py_strip (py_lower col) = py_lower std_col \<and> col \<noteq> std_col)
                        standard_columns of
                None \<Rightarrow> df
              | Some std_col \<Rightarrow> rename col std_col df)"
    using k by (auto simp: keeps_rename find_Some_iff split: option.splits)
qed

lemma keeps_after_loops:
  "keeps df0 (normalise_case (apply_mapping (existing_cols_lower df0) df0))"
  by (intro keeps_normalise_case keeps_apply_mapping)


lemma keeps_values: "keeps df0 df \<Longrightarrow> map snd df = map snd df0"
  unfolding keeps_def by (induction df0 df rule: list_all2_induct) auto




lemma map_columns_shape:
  assumes run: "map_columns to_num beyond df = Inr out"
  obtains kept where "keeps df kept"
    and "out = coerced to_num beyond
                 (kept @ map (\<lambda>col. (col, replicate (nrows df) Null))
                             (filter (\<lambda>col. col \<notin> set (names kept)) standard_columns))"
    and "kept = normalise_case (apply_mapping (existing_cols_lower df) df)"
proof -
  define kept where "kept = normalise_case (apply_mapping (existing_cols_lower df) df)"
  have k: "keeps df kept" unfolding kept_def by (rule keeps_after_loops)
  have "nrows kept = nrows df" using keeps_values [OF k] by (rule nrows_values)
  then have "out = coerced to_num beyond
                 (kept @ map (\<lambda>col. (col, replicate (nrows df) Null))
                             (filter (\<lambda>col. col \<notin> set (names kept)) standard_columns))"
    using map_columns_Inr [OF run] by (simp add: kept_def add_missing_eq)
  with k show ?thesis using that kept_def by blast
qed




subsection \<open>The price column\<close>

text \<open>Two columns that both end up named \<open>price\<close> make the coercion raise.\<close>

lemma duplicate_price_columns_raise:
  "map_columns plain_number indefinite upload_two_prices = Inl TypeError"
  by code_simp

lemma coerce_price_cases:
  "c = Null \<Longrightarrow> coerce_price to_num beyond c = Number 0"
  "c = Text s \<Longrightarrow> to_num s = NotNumeric \<Longrightarrow> coerce_price to_num beyond c = Number 0"
  "c = Text s \<Longrightarrow> to_num s = Value r \<Longrightarrow> \<bar>r\<bar> \<le> 2 ^ 53 \<Longrightarrow>
     coerce_price to_num beyond c = Number (of_int (trunc r))"
  "c = Number r \<Longrightarrow> \<bar>r\<bar> \<le> 2 ^ 53 \<Longrightarrow> coerce_price to_num beyond c = Number (of_int (trunc r))"
  "\<exists>k. coerce_price to_num beyond c = Number (of_int k)"
  by (simp_all add: coerce_price_def to_numeric_def astype_int_def)

lemma trunc_negative: "r \<le> - 1 \<Longrightarrow> trunc r \<le> - 1"
  by (simp add: trunc_def ceiling_le_iff)

text \<open>
  Claim C2, as stated, fails: a negative price stays negative, and the coercion can raise.
  In the upload with the prices -5, \<open>abc\<close>, the empty text, a missing value and \<open>1200\<close>
  the output prices are -5, 0, 0, 0 and 1200; and a price text that reads as an infinity
  raises \<open>ValueError\<close>.
\<close>

theorem price_sign_counterexample:
  "map_columns plain_number indefinite upload_with_prices = Inr normalised_prices \<and>
   (U ''price'', [Number (- 5), Number 0, Number 0, Number 0, Number 1200]) \<in> set normalised_prices \<and>
   (- 5 :: rat) < 0 \<and>
   map_columns plain_number indefinite upload_infinite_price = Inl ValueError"
  by code_simp

text \<open>
  Claim C2, amended. Whenever \<open>map_columns\<close> returns, a \<open>price\<close> column of the output is,
  row by row, the coercion of a column of the input or of the added all-null column:
  every value is an integer; it is exactly 0 where the input value is missing or is a text
  that \<open>to_numeric\<close> cannot read; and where the input is a number, or a text denoting one,
  of magnitude at most \<open>2^53\<close>, it is that number with the fraction cut off toward zero
  (so a negative price stays negative).
\<close>

theorem price_is_coerced_integer:
  assumes run: "map_columns to_num beyond df = Inr out"
    and col: "(U ''price'', vs) \<in> set out"
  shows "\<exists>src. (src \<in> snd ` set df \<or> src = replicate (nrows df) Null) \<and>
           length vs = length src \<and>
           (\<forall>i < length src.
              (\<exists>k. vs ! i = Number (of_int k)) \<and>
              (src ! i = Null \<longrightarrow> vs ! i = Number 0) \<and>
              (\<forall>s. src ! i = Text s \<and> to_num s = NotNumeric \<longrightarrow> vs ! i = Number 0) \<and>
              (\<forall>s r. src ! i = Text s \<and> to_num s = Value r \<and> \<bar>r\<bar> \<le> 2 ^ 53 \<longrightarrow>
                 vs ! i = Number (of_int (trunc r))) \<and>
              (\<forall>r. src ! i = Number r \<and> \<bar>r\<bar> \<le> 2 ^ 53 \<longrightarrow>
                 vs ! i = Number (of_int (trunc r))))"
proof -
  from run obtain kept where k: "keeps df kept"
    and out: "out = coerced to_num beyond
                 (kept @ map (\<lambda>col. (col, replicate (nrows df) Null))
                             (filter (\<lambda>col. col \<notin> set (names kept)) standard_columns))"
    by (rule map_columns_shape)
  define added where "added = map (\<lambda>col. (col, replicate (nrows df) Null))
                             (filter (\<lambda>col. col \<notin> set (names kept)) standard_columns)"
  have "(U ''price'', vs) \<in> (\<lambda>(n, vs). if n = U ''price''
                                       then (n, map (coerce_price to_num beyond) vs)
                                       else (n, vs)) ` set (kept @ added)"
    using col unfolding out added_def [symmetric] coerced_def set_map .
  then obtain n src where el: "(n, src) \<in> set (kept @ added)"
    and eq: "(U ''price'', vs) = (if n = U ''price'' then (n, map (coerce_price to_num beyond) src)
                                  else (n, src))"
    by (auto simp only: image_iff case_prod_beta) (metis prod.collapse)
  have n: "n = U ''price''" using eq by (simp split: if_splits)
  have vs: "vs = map (coerce_price to_num beyond) src" using eq n by simp
  have "src \<in> snd ` set kept \<or> src = replicate (nrows df) Null"
    using el by (auto simp: added_def image_iff) force
  moreover have "snd ` set kept = snd ` set df"
    using keeps_values [OF k] by (metis set_map)
  ultimately have src: "src \<in> snd ` set df \<or> src = replicate (nrows df) Null" by simp
  have rows: "(\<exists>k. vs ! i = Number (of_int k)) \<and>
              (src ! i = Null \<longrightarrow> vs ! i = Number 0) \<and>
              (\<forall>s. src ! i = Text s \<and> to_num s = NotNumeric \<longrightarrow> vs ! i = Number 0) \<and>
              (\<forall>s r. src ! i = Text s \<and> to_num s = Value r \<and> \<bar>r\<bar> \<le> 2 ^ 53 \<longrightarrow>
                 vs ! i = Number (of_int (trunc r))) \<and>
              (\<forall>r. src ! i = Number r \<and> \<bar>r\<bar> \<le> 2 ^ 53 \<longrightarrow>
                 vs ! i = Number (of_int (trunc r)))" if "i < length src" for i
    using that coerce_price_cases [where c = "src ! i" and to_num = to_num and beyond = beyond] by (simp add: vs)
  have "length vs = length src" by (simp add: vs)
  with src rows show ?thesis by blast
qed

theorem price_is_coerced_integer_witness:
  "map_columns plain_number indefinite upload_with_prices = Inr normalised_prices \<and>
   (U ''price'', [Number (- 5), Number 0, Number 0, Number 0, Number 1200]) \<in> set normalised_prices \<and>
   (\<exists>src. (src \<in> snd ` set upload_with_prices \<or> src = replicate (nrows upload_with_prices) Null) \<and>
      length [Number (- 5), Number 0, Number 0, Number 0, Number 1200 :: cell] = length src \<and>
      (\<forall>i < length src.
         (\<exists>k. [Number (- 5), Number 0, Number 0, Number 0, Number 1200] ! i = Number (of_int k)) \<and>
         (src ! i = Null \<longrightarrow> [Number (- 5), Number 0, Number 0, Number 0, Number 1200] ! i = Number 0) \<and>
         (\<forall>s. src ! i = Text s \<and> plain_number s = NotNumeric \<longrightarrow>
            [Number (- 5), Number 0, Number 0, Number 0, Number 1200] ! i = Number 0) \<and>
         (\<forall>s r. src ! i = Text s \<and> plain_number s = Value r \<and> \<bar>r\<bar> \<le> 2 ^ 53 \<longrightarrow>
            [Number (- 5), Number 0, Number 0, Number 0, Number 1200] ! i = Number (of_int (trunc r))) \<and>
         (\<forall>r. src ! i = Number r \<and> \<bar>r\<bar> \<le> 2 ^ 53 \<longrightarrow>
            [Number (- 5), Number 0, Number 0, Number 0, Number 1200] ! i = Number (of_int (trunc r)))))"
proof -
  have run: "map_columns plain_number indefinite upload_with_prices = Inr normalised_prices"
    by code_simp
  have col: "(U ''price'', [Number (- 5), Number 0, Number 0, Number 0, Number 1200]) \<in> set normalised_prices"
    by code_simp
  from price_is_coerced_integer [OF run col] run col show ?thesis by blast
qed

end
